theory Spec2Isabelle
  imports Main
begin

section \<open>JavaScript values\<close>

text \<open>
  The three servers exchange JSON.  A decoded JSON document is a value of \<open>json\<close>; numbers are
  modelled as integers (fractions and exponents are outside the model).  A JavaScript
  expression that reads a property of an object yields \<open>undefined\<close> when the property is
  missing, so such an expression has type \<open>json option\<close> with \<open>None\<close> for \<open>undefined\<close>.
  Objects keep their properties in insertion order, as an association list.
\<close>

datatype json =
    JNull
  | JBool bool
  | JNum int
  | JStr string
  | JArr "json list"
  | JObj "(string \<times> json) list"

text \<open>\<open>!v\<close> in the source is \<open>\<not> truthy v\<close>.\<close>

fun truthy :: "json option \<Rightarrow> bool" where
  "truthy None = False"
| "truthy (Some JNull) = False"
| "truthy (Some (JBool b)) = b"
| "truthy (Some (JNum n)) = (n \<noteq> 0)"
| "truthy (Some (JStr s)) = (s \<noteq> [])"
| "truthy (Some (JArr xs)) = True"
| "truthy (Some (JObj ps)) = True"

text \<open>Reading a property, and writing one: an existing key keeps its position, a new key is
  appended (the order in which \<open>{...row, k: v}\<close> lists the properties).\<close>

definition get_prop :: "(string \<times> json) list \<Rightarrow> string \<Rightarrow> json option" where
  "get_prop obj k = map_of obj k"

fun set_prop :: "(string \<times> json) list \<Rightarrow> string \<Rightarrow> json \<Rightarrow> (string \<times> json) list" where
  "set_prop [] k v = [(k, v)]"
| "set_prop ((k', v') # ps) k v =
     (if k' = k then (k, v) # ps else (k', v') # set_prop ps k v)"

text \<open>Decimal rendering of a number, as template literals and \<open>String(n)\<close> produce it.\<close>

definition digit_char :: "nat \<Rightarrow> char" where
  "digit_char d = char_of (48 + d)"

fun dec_nat :: "nat \<Rightarrow> string" where
  "dec_nat n = (if n < 10 then [digit_char n] else dec_nat (n div 10) @ [digit_char (n mod 10)])"

declare dec_nat.simps [simp del]

definition dec :: "int \<Rightarrow> string" where
  "dec i = (if i < 0 then CHR ''-'' # dec_nat (nat (- i)) else dec_nat (nat i))"

section \<open>HTTP\<close>

datatype verb = GET | POST | PUT | DELETE

record request =
  meth :: verb
  url_path :: "string list"
  query :: "(string \<times> string) list"
  body :: "(string \<times> json) list"

record response =
  code :: nat
  payload :: json

text \<open>A server as seen by a client: a request either fails in transport (\<open>Inl\<close>, with the
  message of the failure) or is answered.\<close>

type_synonym service = "request \<Rightarrow> string + response"

text \<open>The HTTP client of the sources.  A call resolves with the response when its status is
  2xx and rejects otherwise; the rejection carries the upstream response when there was one
  (\<open>error.response\<close>).\<close>

record axios_error =
  message :: string
  error_response :: "response option"

definition axios :: "service \<Rightarrow> request \<Rightarrow> axios_error + response" where
  "axios svc rq =
     (case svc rq of
        Inl m \<Rightarrow> Inl \<lparr>message = m, error_response = None\<rparr>
      | Inr r \<Rightarrow>
          if 200 \<le> code r \<and> code r < 300 then Inr r
          else Inl \<lparr>message = ''Request failed with status code '' @ dec_nat (code r),
                    error_response = Some r\<rparr>)"

definition ok_json :: "json \<Rightarrow> response" where
  "ok_json j = \<lparr>code = 200, payload = j\<rparr>"

definition failure :: "nat \<Rightarrow> string \<Rightarrow> string \<Rightarrow> response" where
  "failure c m e =
     \<lparr>code = c,
      payload = JObj [(''success'', JBool False), (''message'', JStr m), (''error'', JStr e)]\<rparr>"

text \<open>The router of the framework ignores one trailing slash.\<close>

definition route_path :: "string list \<Rightarrow> string list" where
  "route_path p = (if p \<noteq> [] \<and> last p = [] then butlast p else p)"

section \<open>API Gateway\<close>

text \<open>\<open>error.response?.status || 500\<close>\<close>

definition status_or_500 :: "axios_error \<Rightarrow> nat" where
  "status_or_500 e =
     (case error_response e of
        None \<Rightarrow> 500
      | Some r \<Rightarrow> if code r = 0 then 500 else code r)"

text \<open>The routes of the gateway, in the order the source registers them.\<close>

datatype route =
    GetUsers
  | GetUsersId string
  | PostUsers
  | PutUsersId string
  | DeleteUsersId string
  | GetOrders
  | GetOrdersId string
  | GetOrdersIdWithUser string
  | PostOrders
  | PutOrdersId string

fun gateway_route :: "request \<Rightarrow> route option" where
  "gateway_route rq =
     (case (meth rq, route_path (url_path rq)) of
        (GET, [a, u]) \<Rightarrow>
          if a = ''api'' \<and> u = ''users'' then Some GetUsers
          else if a = ''api'' \<and> u = ''orders'' then Some GetOrders else None
      | (GET, [a, u, i]) \<Rightarrow>
          if a = ''api'' \<and> u = ''users'' then Some (GetUsersId i)
          else if a = ''api'' \<and> u = ''orders'' then Some (GetOrdersId i) else None
      | (GET, [a, u, i, w]) \<Rightarrow>
          if a = ''api'' \<and> u = ''orders'' \<and> w = ''with-user'' then Some (GetOrdersIdWithUser i)
          else None
      | (POST, [a, u]) \<Rightarrow>
          if a = ''api'' \<and> u = ''users'' then Some PostUsers
          else if a = ''api'' \<and> u = ''orders'' then Some PostOrders else None
      | (PUT, [a, u, i]) \<Rightarrow>
          if a = ''api'' \<and> u = ''users'' then Some (PutUsersId i)
          else if a = ''api'' \<and> u = ''orders'' then Some (PutOrdersId i) else None
      | (DELETE, [a, u, i]) \<Rightarrow>
          if a = ''api'' \<and> u = ''users'' then Some (DeleteUsersId i) else None
      | _ \<Rightarrow> None)"

definition upstream_get :: "string list \<Rightarrow> (string \<times> string) list \<Rightarrow> request" where
  "upstream_get p q = \<lparr>meth = GET, url_path = p, query = q, body = []\<rparr>"

definition upstream_send :: "verb \<Rightarrow> string list \<Rightarrow> (string \<times> json) list \<Rightarrow> request" where
  "upstream_send m p b = \<lparr>meth = m, url_path = p, query = [], body = b\<rparr>"

text \<open>One equation per handler of \<open>api-gateway/server.js\<close>; \<open>us\<close> is the User Service and
  \<open>os\<close> the Order Service.\<close>

fun gateway_handle :: "service \<Rightarrow> service \<Rightarrow> route \<Rightarrow> request \<Rightarrow> response" where
  "gateway_handle us os GetUsers rq =
     (case axios us (upstream_get [''users''] []) of
        Inr r \<Rightarrow> ok_json (payload r)
      | Inl e \<Rightarrow> failure 500 ''Error fetching users'' (message e))"
| "gateway_handle us os (GetUsersId i) rq =
     (case axios us (upstream_get [''users'', i] []) of
        Inr r \<Rightarrow> ok_json (payload r)
      | Inl e \<Rightarrow> failure (status_or_500 e) ''Error fetching user'' (message e))"
| "gateway_handle us os PostUsers rq =
     (case axios us (upstream_send POST [''users''] (body rq)) of
        Inr r \<Rightarrow> \<lparr>code = 201, payload = payload r\<rparr>
      | Inl e \<Rightarrow> failure 500 ''Error creating user'' (message e))"
| "gateway_handle us os (PutUsersId i) rq =
     (case axios us (upstream_send PUT [''users'', i] (body rq)) of
        Inr r \<Rightarrow> ok_json (payload r)
      | Inl e \<Rightarrow> failure 500 ''Error updating user'' (message e))"
| "gateway_handle us os (DeleteUsersId i) rq =
     (case axios us (upstream_send DELETE [''users'', i] []) of
        Inr r \<Rightarrow> ok_json (payload r)
      | Inl e \<Rightarrow> failure 500 ''Error deleting user'' (message e))"
| "gateway_handle us os GetOrders rq =
     (case axios os (upstream_get [''orders''] (query rq)) of
        Inr r \<Rightarrow> ok_json (payload r)
      | Inl e \<Rightarrow> failure 500 ''Error fetching orders'' (message e))"
| "gateway_handle us os (GetOrdersId i) rq =
     (case axios os (upstream_get [''orders'', i] []) of
        Inr r \<Rightarrow> ok_json (payload r)
      | Inl e \<Rightarrow> failure (status_or_500 e) ''Error fetching order'' (message e))"
| "gateway_handle us os (GetOrdersIdWithUser i) rq =
     (case axios os (upstream_get [''orders'', i, ''with-user''] []) of
        Inr r \<Rightarrow> ok_json (payload r)
      | Inl e \<Rightarrow> failure (status_or_500 e) ''Error fetching order with user'' (message e))"
| "gateway_handle us os PostOrders rq =
     (case axios os (upstream_send POST [''orders''] (body rq)) of
        Inr r \<Rightarrow> \<lparr>code = 201, payload = payload r\<rparr>
      | Inl e \<Rightarrow> failure 500 ''Error creating order'' (message e))"
| "gateway_handle us os (PutOrdersId i) rq =
     (case axios os (upstream_send PUT [''orders'', i] (body rq)) of
        Inr r \<Rightarrow> ok_json (payload r)
      | Inl e \<Rightarrow> failure 500 ''Error updating order'' (message e))"

text \<open>The backend that the handler of a route calls, and the request it sends there (the
  \<open>axios\<close> call of each equation above).\<close>

fun backend :: "service \<Rightarrow> service \<Rightarrow> route \<Rightarrow> service" where
  "backend us os GetUsers = us"
| "backend us os (GetUsersId i) = us"
| "backend us os PostUsers = us"
| "backend us os (PutUsersId i) = us"
| "backend us os (DeleteUsersId i) = us"
| "backend us os GetOrders = os"
| "backend us os (GetOrdersId i) = os"
| "backend us os (GetOrdersIdWithUser i) = os"
| "backend us os PostOrders = os"
| "backend us os (PutOrdersId i) = os"

fun forwarded :: "route \<Rightarrow> request \<Rightarrow> request" where
  "forwarded GetUsers rq = upstream_get [''users''] []"
| "forwarded (GetUsersId i) rq = upstream_get [''users'', i] []"
| "forwarded PostUsers rq = upstream_send POST [''users''] (body rq)"
| "forwarded (PutUsersId i) rq = upstream_send PUT [''users'', i] (body rq)"
| "forwarded (DeleteUsersId i) rq = upstream_send DELETE [''users'', i] []"
| "forwarded GetOrders rq = upstream_get [''orders''] (query rq)"
| "forwarded (GetOrdersId i) rq = upstream_get [''orders'', i] []"
| "forwarded (GetOrdersIdWithUser i) rq = upstream_get [''orders'', i, ''with-user''] []"
| "forwarded PostOrders rq = upstream_send POST [''orders''] (body rq)"
| "forwarded (PutOrdersId i) rq = upstream_send PUT [''orders'', i] (body rq)"

text \<open>\<open>GET /health\<close> is answered by the gateway itself, without a call to a backend.  The
  two service URLs are read from the environment when the process starts.\<close>

record gateway_config =
  USER_SERVICE_URL :: string
  ORDER_SERVICE_URL :: string

definition default_config :: gateway_config where
  "default_config =
     \<lparr>USER_SERVICE_URL = ''http://localhost:3001'', ORDER_SERVICE_URL = ''http://localhost:3002''\<rparr>"

definition health :: "gateway_config \<Rightarrow> string \<Rightarrow> response" where
  "health cfg now =
     ok_json (JObj [(''success'', JBool True), (''message'', JStr ''API Gateway is running''),
                    (''timestamp'', JStr now),
                    (''services'', JObj [(''userService'', JStr (USER_SERVICE_URL cfg)),
                                         (''orderService'', JStr (ORDER_SERVICE_URL cfg))])])"

text \<open>A request that matches no route is answered by the framework with 404.  (The pages
  under \<open>/api-docs\<close> are not modelled.)\<close>

definition gateway :: "gateway_config \<Rightarrow> string \<Rightarrow> service \<Rightarrow> service \<Rightarrow> request \<Rightarrow> response" where
  "gateway cfg now us os rq =
     (if meth rq = GET \<and> route_path (url_path rq) = [''health''] then health cfg now
      else
        case gateway_route rq of
          None \<Rightarrow> \<lparr>code = 404, payload = JNull\<rparr>
        | Some rt \<Rightarrow> gateway_handle us os rt rq)"

section \<open>JSON text\<close>

text \<open>
  The Order Service keeps the items of an order as JSON text in one column: it writes
  \<open>JSON.stringify(items)\<close> and reads \<open>JSON.parse(row.items)\<close>.  Both are modelled on
  characters.  A string is a list of 8-bit characters; an escape \<open>\uXXXX\<close> above \<open>00ff\<close>
  and a number with a fraction or an exponent are outside the model and are refused by the
  decoder.
\<close>

definition is_ws :: "char \<Rightarrow> bool" where
  "is_ws c = (c = CHR 0x20 \<or> c = CHR 0x09 \<or> c = CHR 0x0A \<or> c = CHR 0x0D)"

definition is_digit :: "char \<Rightarrow> bool" where
  "is_digit c = (48 \<le> (of_char c :: nat) \<and> (of_char c :: nat) \<le> 57)"

definition digit_val :: "char \<Rightarrow> nat" where
  "digit_val c = of_char c - 48"

fun nat_of_digits :: "nat \<Rightarrow> string \<Rightarrow> nat" where
  "nat_of_digits acc [] = acc"
| "nat_of_digits acc (c # cs) = nat_of_digits (10 * acc + digit_val c) cs"

definition hex_char :: "nat \<Rightarrow> char" where
  "hex_char d = (if d < 10 then char_of (48 + d) else char_of (87 + d))"

definition hex_val :: "char \<Rightarrow> nat option" where
  "hex_val c =
     (let n = (of_char c :: nat) in
      if 48 \<le> n \<and> n \<le> 57 then Some (n - 48)
      else if 97 \<le> n \<and> n \<le> 102 then Some (n - 87)
      else if 65 \<le> n \<and> n \<le> 70 then Some (n - 55)
      else None)"

definition hex4 :: "char \<Rightarrow> char \<Rightarrow> char \<Rightarrow> char \<Rightarrow> nat option" where
  "hex4 a b c d =
     (case (hex_val a, hex_val b, hex_val c, hex_val d) of
        (Some w, Some x, Some y, Some z) \<Rightarrow> Some (((w * 16 + x) * 16 + y) * 16 + z)
      | _ \<Rightarrow> None)"

subsection \<open>Encoding\<close>

definition escape_char :: "char \<Rightarrow> string" where
  "escape_char c =
     (if c = CHR 0x22 then [CHR 0x5C, CHR 0x22]
      else if c = CHR 0x5C then [CHR 0x5C, CHR 0x5C]
      else if c = CHR 0x08 then [CHR 0x5C, CHR ''b'']
      else if c = CHR 0x0C then [CHR 0x5C, CHR ''f'']
      else if c = CHR 0x0A then [CHR 0x5C, CHR ''n'']
      else if c = CHR 0x0D then [CHR 0x5C, CHR ''r'']
      else if c = CHR 0x09 then [CHR 0x5C, CHR ''t'']
      else if (of_char c :: nat) < 32 then
        [CHR 0x5C, CHR ''u'', CHR ''0'', CHR ''0'',
         hex_char ((of_char c :: nat) div 16), hex_char ((of_char c :: nat) mod 16)]
      else [c])"

definition quote :: "string \<Rightarrow> string" where
  "quote s = CHR 0x22 # concat (map escape_char s) @ [CHR 0x22]"

fun join :: "string \<Rightarrow> string list \<Rightarrow> string" where
  "join sep [] = []"
| "join sep [x] = x"
| "join sep (x # y # ys) = x @ sep @ join sep (y # ys)"

fun JSON_stringify :: "json \<Rightarrow> string" where
  "JSON_stringify JNull = ''null''"
| "JSON_stringify (JBool b) = (if b then ''true'' else ''false'')"
| "JSON_stringify (JNum n) = dec n"
| "JSON_stringify (JStr s) = quote s"
| "JSON_stringify (JArr xs) = ''['' @ join '','' (map JSON_stringify xs) @ '']''"
| "JSON_stringify (JObj ps) =
     ''{'' @ join '','' (map (\<lambda>p. quote (fst p) @ '':'' @ JSON_stringify (snd p)) ps) @ ''}''"

subsection \<open>Decoding: tokens\<close>

datatype tok =
    TLBracket | TRBracket | TLBrace | TRBrace | TComma | TColon
  | TStr string | TNum int | TTrue | TFalse | TNull

definition unescape :: "char \<Rightarrow> char option" where
  "unescape e =
     (if e = CHR 0x22 then Some (CHR 0x22)
      else if e = CHR 0x5C then Some (CHR 0x5C)
      else if e = CHR ''/'' then Some (CHR ''/'')
      else if e = CHR ''b'' then Some (CHR 0x08)
      else if e = CHR ''f'' then Some (CHR 0x0C)
      else if e = CHR ''n'' then Some (CHR 0x0A)
      else if e = CHR ''r'' then Some (CHR 0x0D)
      else if e = CHR ''t'' then Some (CHR 0x09)
      else None)"

text \<open>The characters of a string literal after its opening quote: the decoded string and
  the text after the closing quote.\<close>

fun lex_string :: "string \<Rightarrow> (string \<times> string) option" where
  "lex_string [] = None"
| "lex_string (c # cs) =
     (if c = CHR 0x22 then Some ([], cs)
      else if c = CHR 0x5C then
        (case cs of
           [] \<Rightarrow> None
         | e # r \<Rightarrow>
             if e = CHR ''u'' then
               (case r of
                  h1 # h2 # h3 # h4 # r' \<Rightarrow>
                    (case hex4 h1 h2 h3 h4 of
                       None \<Rightarrow> None
                     | Some n \<Rightarrow>
                         if n < 256
                         then map_option (\<lambda>(s, t). (char_of n # s, t)) (lex_string r')
                         else None)
                | _ \<Rightarrow> None)
             else
               (case unescape e of
                  None \<Rightarrow> None
                | Some d \<Rightarrow> map_option (\<lambda>(s, t). (d # s, t)) (lex_string r)))
      else if (of_char c :: nat) < 32 then None
      else map_option (\<lambda>(s, t). (c # s, t)) (lex_string cs))"

text \<open>A number: an optional minus sign and the digits of an integer without a leading
  zero.\<close>

definition lex_number :: "string \<Rightarrow> (int \<times> string) option" where
  "lex_number s =
     (let neg = (s \<noteq> [] \<and> hd s = CHR ''-'');
          t = (if neg then tl s else s);
          ds = takeWhile is_digit t;
          r = dropWhile is_digit t
      in if ds = [] \<or> (1 < length ds \<and> hd ds = CHR ''0'') then None
         else if r \<noteq> [] \<and> (hd r = CHR ''.'' \<or> hd r = CHR ''e'' \<or> hd r = CHR ''E'') then None
         else Some (if neg then - int (nat_of_digits 0 ds) else int (nat_of_digits 0 ds), r))"

fun strip_prefix :: "string \<Rightarrow> string \<Rightarrow> string option" where
  "strip_prefix [] s = Some s"
| "strip_prefix (p # ps) [] = None"
| "strip_prefix (p # ps) (c # cs) = (if p = c then strip_prefix ps cs else None)"

definition lex_word :: "string \<Rightarrow> (tok \<times> string) option" where
  "lex_word s =
     (case strip_prefix ''true'' s of
        Some r \<Rightarrow> Some (TTrue, r)
      | None \<Rightarrow>
          (case strip_prefix ''false'' s of
             Some r \<Rightarrow> Some (TFalse, r)
           | None \<Rightarrow>
               (case strip_prefix ''null'' s of
                  Some r \<Rightarrow> Some (TNull, r)
                | None \<Rightarrow> None)))"

definition punct :: "char \<Rightarrow> tok option" where
  "punct c =
     (if c = CHR ''['' then Some TLBracket
      else if c = CHR '']'' then Some TRBracket
      else if c = CHR ''{'' then Some TLBrace
      else if c = CHR ''}'' then Some TRBrace
      else if c = CHR '','' then Some TComma
      else if c = CHR '':'' then Some TColon
      else None)"

text \<open>One token from the front of a text that does not start with white space.\<close>

definition lex_token :: "string \<Rightarrow> (tok \<times> string) option" where
  "lex_token s =
     (case s of
        [] \<Rightarrow> None
      | c # cs \<Rightarrow>
          (case punct c of
             Some t \<Rightarrow> Some (t, cs)
           | None \<Rightarrow>
               if c = CHR 0x22 then map_option (\<lambda>(x, r). (TStr x, r)) (lex_string cs)
               else if c = CHR ''-'' \<or> is_digit c
               then map_option (\<lambda>(n, r). (TNum n, r)) (lex_number s)
               else lex_word s))"

text \<open>Every token takes at least one character, so the tokens of a text can be collected
  by recursion on the rest.\<close>

lemma map_option_pair_cons:
  "map_option (\<lambda>(s, t). (d # s, t)) m = Some (x, r) \<longleftrightarrow> (\<exists>s'. m = Some (s', r) \<and> x = d # s')"
  by (cases m) auto

lemma lex_string_shorter: "lex_string s = Some (x, r) \<Longrightarrow> length r < length s"
proof (induction s arbitrary: x r rule: lex_string.induct)
  case 1
  then show ?case by simp
next
  case (2 c cs)
  note eq = \<open>lex_string (c # cs) = Some (x, r)\<close>
  show ?case
  proof (cases "c = CHR 0x22")
    case True
    with eq show ?thesis by simp
  next
    case nq: False
    show ?thesis
    proof (cases "c = CHR 0x5C")
      case False
      with nq eq obtain s' where "lex_string cs = Some (s', r)"
        by (auto split: if_splits simp: map_option_pair_cons)
      with False nq eq have "length r < length cs"
        using "2.IH"(3) [of s' r] by (auto split: if_splits)
      then show ?thesis by simp
    next
      case bs: True
      show ?thesis
      proof (cases cs)
        case Nil
        with eq nq bs show ?thesis by simp
      next
        case (Cons e t)
        show ?thesis
        proof (cases "e = CHR ''u''")
          case False
          with eq nq bs Cons obtain d s' where "unescape e = Some d" "lex_string t = Some (s', r)"
            by (auto split: option.splits simp: map_option_pair_cons)
          with False nq bs Cons have "length r < length t"
            using "2.IH"(2) [of e t d s' r] by simp
          with Cons show ?thesis by simp
        next
          case u: True
          with eq nq bs Cons obtain h1 h2 h3 h4 t' n s'
            where t: "t = h1 # h2 # h3 # h4 # t'" and h: "hex4 h1 h2 h3 h4 = Some n" "n < 256"
              and l: "lex_string t' = Some (s', r)"
            by (auto split: option.splits list.splits if_splits simp: map_option_pair_cons)
          with u nq bs Cons have "length r < length t'"
            using "2.IH"(1) [of e t h1 "h2 # h3 # h4 # t'" h2 "h3 # h4 # t'" h3 "h4 # t'" h4 t' n s' r]
            by simp
          with Cons t show ?thesis by simp
        qed
      qed
    qed
  qed
qed

lemma lex_number_shorter: "lex_number s = Some (n, r) \<Longrightarrow> length r < length s"
proof -
  assume a: "lex_number s = Some (n, r)"
  define t where "t = (if s \<noteq> [] \<and> hd s = CHR ''-'' then tl s else s)"
  from a have r: "r = dropWhile is_digit t" and ne: "takeWhile is_digit t \<noteq> []"
    by (auto simp: lex_number_def Let_def t_def split: if_splits)
  have "length (takeWhile is_digit t) + length (dropWhile is_digit t) = length t"
    by (metis length_append takeWhile_dropWhile_id)
  with ne r have "length r < length t"
    by (cases "takeWhile is_digit t") auto
  moreover have "length t \<le> length s"
    by (simp add: t_def)
  ultimately show ?thesis by simp
qed

lemma strip_prefix_Some: "strip_prefix p s = Some r \<Longrightarrow> s = p @ r"
  by (induction p s rule: strip_prefix.induct) (auto split: if_splits)

lemma lex_word_shorter: "lex_word s = Some (t, r) \<Longrightarrow> length r < length s"
  unfolding lex_word_def
  by (auto split: option.splits dest!: strip_prefix_Some)

lemma lex_token_cases:
  assumes "lex_token (c # cs) = Some (t, r)"
  shows "r = cs \<or> (\<exists>x. lex_string cs = Some (x, r)) \<or> (\<exists>n. lex_number (c # cs) = Some (n, r))
         \<or> lex_word (c # cs) = Some (t, r)"
  using assms unfolding lex_token_def list.case
  by (auto split: if_splits option.splits)

lemma lex_token_shorter: "lex_token s = Some (t, r) \<Longrightarrow> length r < length s"
proof (cases s)
  case Nil
  assume "lex_token s = Some (t, r)"
  with Nil show ?thesis by (simp add: lex_token_def)
next
  case (Cons c cs)
  assume "lex_token s = Some (t, r)"
  with Cons have "lex_token (c # cs) = Some (t, r)" by simp
  from lex_token_cases [OF this] Cons show ?thesis
    by (auto dest: lex_string_shorter lex_number_shorter lex_word_shorter)
qed

text \<open>The tokens of a text, or \<open>None\<close> where \<open>JSON.parse\<close> raises a syntax error in the
  lexical structure.\<close>

function lex :: "string \<Rightarrow> tok list option" where
  "lex s =
     (case dropWhile is_ws s of
        [] \<Rightarrow> Some []
      | c # cs \<Rightarrow>
          (case lex_token (c # cs) of
             None \<Rightarrow> None
           | Some (t, r) \<Rightarrow> map_option ((#) t) (lex r)))"
  by pat_completeness auto

termination
proof (relation "measure length")
  show "wf (measure length)" by simp
next
  fix s :: string and c cs x t r
  assume d: "dropWhile is_ws s = c # cs" and "lex_token (c # cs) = Some x" and "(t, r) = x"
  then have "length r < length (c # cs)"
    using lex_token_shorter [of "c # cs" t r] by simp
  moreover have "length (dropWhile is_ws s) \<le> length s"
    by (rule length_dropWhile_le)
  ultimately show "(r, s) \<in> measure length"
    using d by simp
qed

declare lex.simps [simp del]

subsection \<open>Decoding: structure\<close>

text \<open>The tokens are read left to right against a stack of the arrays and objects that are
  still open.  A frame holds what its container has collected so far, and for an object the
  key whose value is being read.\<close>

datatype frame =
    FArr "json list"
  | FObj "(string \<times> json) list" string

datatype pstate =
    PValue "frame list"
  | PFirst "frame list"
  | PNextElem "json list" "frame list"
  | PFirstKey "frame list"
  | PKey "(string \<times> json) list" "frame list"
  | PColon "(string \<times> json) list" string "frame list"
  | PNextMember "(string \<times> json) list" "frame list"
  | PDone json

text \<open>A value is complete: it goes into the innermost open container.  A repeated key of an
  object overwrites the earlier value.\<close>

fun reduce :: "json \<Rightarrow> frame list \<Rightarrow> pstate" where
  "reduce v [] = PDone v"
| "reduce v (FArr acc # stk) = PNextElem (acc @ [v]) stk"
| "reduce v (FObj acc k # stk) = PNextMember (set_prop acc k v) stk"

fun shift_value :: "frame list \<Rightarrow> tok \<Rightarrow> pstate option" where
  "shift_value stk TNull = Some (reduce JNull stk)"
| "shift_value stk TTrue = Some (reduce (JBool True) stk)"
| "shift_value stk TFalse = Some (reduce (JBool False) stk)"
| "shift_value stk (TNum n) = Some (reduce (JNum n) stk)"
| "shift_value stk (TStr s) = Some (reduce (JStr s) stk)"
| "shift_value stk TLBracket = Some (PFirst stk)"
| "shift_value stk TLBrace = Some (PFirstKey stk)"
| "shift_value stk TRBracket = None"
| "shift_value stk TRBrace = None"
| "shift_value stk TComma = None"
| "shift_value stk TColon = None"

fun step :: "pstate \<Rightarrow> tok \<Rightarrow> pstate option" where
  "step (PValue stk) t = shift_value stk t"
| "step (PFirst stk) t =
     (if t = TRBracket then Some (reduce (JArr []) stk) else shift_value (FArr [] # stk) t)"
| "step (PNextElem acc stk) t =
     (if t = TComma then Some (PValue (FArr acc # stk))
      else if t = TRBracket then Some (reduce (JArr acc) stk)
      else None)"
| "step (PFirstKey stk) t =
     (case t of
        TRBrace \<Rightarrow> Some (reduce (JObj []) stk)
      | TStr k \<Rightarrow> Some (PColon [] k stk)
      | _ \<Rightarrow> None)"
| "step (PKey acc stk) t = (case t of TStr k \<Rightarrow> Some (PColon acc k stk) | _ \<Rightarrow> None)"
| "step (PColon acc k stk) t = (if t = TColon then Some (PValue (FObj acc k # stk)) else None)"
| "step (PNextMember acc stk) t =
     (if t = TComma then Some (PKey acc stk)
      else if t = TRBrace then Some (reduce (JObj acc) stk)
      else None)"
| "step (PDone v) t = None"

fun run :: "pstate \<Rightarrow> tok list \<Rightarrow> pstate option" where
  "run st [] = Some st"
| "run st (t # ts) = (case step st t of None \<Rightarrow> None | Some st' \<Rightarrow> run st' ts)"

text \<open>\<open>JSON.parse\<close>: \<open>None\<close> is the SyntaxError it throws.\<close>

definition JSON_parse :: "string \<Rightarrow> json option" where
  "JSON_parse s =
     (case lex s of
        None \<Rightarrow> None
      | Some ts \<Rightarrow> (case run (PValue []) ts of Some (PDone v) \<Rightarrow> Some v | _ \<Rightarrow> None))"

section \<open>The embedded store\<close>

text \<open>
  Each backend owns one SQLite file with one table.  A column holds \<open>NULL\<close>, an integer or
  a text.  The model follows the statements of the sources and the constraints of their
  \<open>CREATE TABLE\<close>: \<open>NOT NULL\<close>, \<open>UNIQUE\<close>, the column affinities and the
  \<open>AUTOINCREMENT\<close> key.  How a JavaScript value is bound to a parameter is the rule of the
  \<open>sqlite3\<close> driver; how a bound value is stored and compared is the rule of the engine.
\<close>

datatype sqlval = SNull | SInt int | SText string

text \<open>\<open>String(v)\<close>, which is also how a template literal renders a value.\<close>

fun js_to_string :: "json \<Rightarrow> string" where
  "js_to_string JNull = ''null''"
| "js_to_string (JBool b) = (if b then ''true'' else ''false'')"
| "js_to_string (JNum n) = dec n"
| "js_to_string (JStr s) = s"
| "js_to_string (JArr xs) =
     join '','' (map (\<lambda>x. if x = JNull then [] else js_to_string x) xs)"
| "js_to_string (JObj ps) = ''[object Object]''"

text \<open>The value the driver binds a statement parameter to: \<open>undefined\<close> and \<open>null\<close> are
  \<open>NULL\<close>, a boolean is 0 or 1, a number and a string are themselves, and every other object,
  an array included, is the text \<open>[object Object]\<close>.\<close>

fun bind_param :: "json option \<Rightarrow> sqlval" where
  "bind_param None = SNull"
| "bind_param (Some JNull) = SNull"
| "bind_param (Some (JBool b)) = SInt (if b then 1 else 0)"
| "bind_param (Some (JNum n)) = SInt n"
| "bind_param (Some (JStr s)) = SText s"
| "bind_param (Some (JArr xs)) = SText ''[object Object]''"
| "bind_param (Some (JObj ps)) = SText ''[object Object]''"

fun js_of_sql :: "sqlval \<Rightarrow> json" where
  "js_of_sql SNull = JNull"
| "js_of_sql (SInt n) = JNum n"
| "js_of_sql (SText s) = JStr s"

text \<open>Column affinity.  In a column of \<open>INTEGER\<close> affinity a text that the engine reads
  as an integer becomes that integer; in a \<open>TEXT\<close> column an integer becomes its decimal
  text.

  An optionally signed run of digits is read as the integer it spells, and a text without a
  digit is not read as a number.  Which other texts are read as an integer (digits between
  blanks, with a fraction of zeros, with an exponent, or close enough to an integer for
  floating point to round them to it) is the rule of the engine; it is the parameter \<open>x\<close>
  of the definitions below, and the field \<open>number_of_text\<close> of an engine.  Integers are
  unbounded in the model, and a text that is read as a number with a fraction keeps its
  text, as fractions are outside the model.\<close>

definition signed_digits :: "string \<Rightarrow> int option" where
  "signed_digits s =
     (let neg = (s \<noteq> [] \<and> hd s = CHR ''-'');
          t = (if s \<noteq> [] \<and> (hd s = CHR ''-'' \<or> hd s = CHR ''+'') then tl s else s)
      in if t \<noteq> [] \<and> list_all is_digit t
         then Some (if neg then - int (nat_of_digits 0 t) else int (nat_of_digits 0 t))
         else None)"

definition text_integer :: "(string \<Rightarrow> int option) \<Rightarrow> string \<Rightarrow> int option" where
  "text_integer x s =
     (case signed_digits s of
        Some n \<Rightarrow> Some n
      | None \<Rightarrow> if list_ex is_digit s then x s else None)"

fun affinity_integer :: "(string \<Rightarrow> int option) \<Rightarrow> sqlval \<Rightarrow> sqlval" where
  "affinity_integer x (SText s) = (case text_integer x s of Some n \<Rightarrow> SInt n | None \<Rightarrow> SText s)"
| "affinity_integer x v = v"

fun affinity_text :: "sqlval \<Rightarrow> sqlval" where
  "affinity_text (SInt n) = SText (dec n)"
| "affinity_text v = v"

text \<open>\<open>column = ?\<close> for a column of \<open>INTEGER\<close> affinity: the parameter takes the affinity of
  the column, and \<open>NULL\<close> equals nothing.\<close>

definition integer_column_equals ::
  "(string \<Rightarrow> int option) \<Rightarrow> sqlval \<Rightarrow> sqlval \<Rightarrow> bool" where
  "integer_column_equals x v p = (v \<noteq> SNull \<and> v = affinity_integer x p)"

definition not_null_violation :: "string \<Rightarrow> (string \<times> sqlval) list \<Rightarrow> string option" where
  "not_null_violation tbl cols =
     (case filter (\<lambda>(c, v). v = SNull) cols of
        [] \<Rightarrow> None
      | (c, v) # rest \<Rightarrow>
          Some (''SQLITE_CONSTRAINT: NOT NULL constraint failed: '' @ tbl @ ''.'' @ c))"

text \<open>The key of a new row of an \<open>AUTOINCREMENT\<close> table is one more than the largest key the
  table has ever held.\<close>

definition next_rowid :: "int \<Rightarrow> int list \<Rightarrow> int" where
  "next_rowid seq ids = fold max ids seq + 1"

text \<open>A statement can also fail in the engine itself (the file is locked, the disk is full).
  \<open>fault eng k\<close> is the error of the \<open>k\<close>-th statement a handler runs, if it has one.\<close>

record engine =
  fault :: "nat \<Rightarrow> string option"
  number_of_text :: "string \<Rightarrow> int option"

definition with_engine :: "string option \<Rightarrow> string + 'a \<Rightarrow> string + 'a" where
  "with_engine err r = (case err of Some e \<Rightarrow> Inl e | None \<Rightarrow> r)"

subsection \<open>Table \<open>users\<close>\<close>

record user_row =
  uid :: int
  name :: sqlval
  email :: sqlval
  phone :: sqlval
  address :: sqlval
  user_created_at :: sqlval

record users_db =
  users :: "user_row list"
  users_seq :: int

definition select_users_id :: "(string \<Rightarrow> int option) \<Rightarrow> users_db \<Rightarrow> sqlval \<Rightarrow> user_row option" where
  "select_users_id x db p = find (\<lambda>r. integer_column_equals x (SInt (uid r)) p) (users db)"

definition insert_users ::
  "string \<Rightarrow> users_db \<Rightarrow> sqlval \<Rightarrow> sqlval \<Rightarrow> sqlval \<Rightarrow> sqlval \<Rightarrow> string + (users_db \<times> int)" where
  "insert_users now db n e p a =
     (let n' = affinity_text n; e' = affinity_text e; p' = affinity_text p; a' = affinity_text a
      in case not_null_violation ''users''
                [(''name'', n'), (''email'', e'), (''phone'', p'), (''address'', a')] of
           Some m \<Rightarrow> Inl m
         | None \<Rightarrow>
             if list_ex (\<lambda>r. email r = e') (users db)
             then Inl ''SQLITE_CONSTRAINT: UNIQUE constraint failed: users.email''
             else
               let i = next_rowid (users_seq db) (map uid (users db))
               in Inr (db\<lparr>users := users db @
                            [\<lparr>uid = i, name = n', email = e', phone = p', address = a',
                              user_created_at = SText now\<rparr>],
                          users_seq := i\<rparr>, i))"

text \<open>\<open>UPDATE users SET name = ?, email = ?, phone = ?, address = ? WHERE id = ?\<close>: the
  updated table and the number of rows changed.  The constraints are checked on the rows the
  statement touches.\<close>

definition update_users ::
  "(string \<Rightarrow> int option) \<Rightarrow> users_db \<Rightarrow> sqlval \<Rightarrow> sqlval \<Rightarrow> sqlval \<Rightarrow> sqlval \<Rightarrow> sqlval \<Rightarrow> string + (users_db \<times> nat)" where
  "update_users x db n e p a i =
     (let n' = affinity_text n; e' = affinity_text e; p' = affinity_text p; a' = affinity_text a;
          hit = (\<lambda>r. integer_column_equals x (SInt (uid r)) i);
          changes = length (filter hit (users db))
      in if changes = 0 then Inr (db, 0)
         else
           case not_null_violation ''users''
                  [(''name'', n'), (''email'', e'), (''phone'', p'), (''address'', a')] of
             Some m \<Rightarrow> Inl m
           | None \<Rightarrow>
               if 1 < changes \<or> list_ex (\<lambda>r. \<not> hit r \<and> email r = e') (users db)
               then Inl ''SQLITE_CONSTRAINT: UNIQUE constraint failed: users.email''
               else Inr (db\<lparr>users :=
                              map (\<lambda>r. if hit r
                                        then r\<lparr>name := n', email := e', phone := p', address := a'\<rparr>
                                        else r) (users db)\<rparr>, changes))"

definition delete_from_users ::
  "(string \<Rightarrow> int option) \<Rightarrow> users_db \<Rightarrow> sqlval \<Rightarrow> string + (users_db \<times> nat)" where
  "delete_from_users x db i =
     (let hit = (\<lambda>r. integer_column_equals x (SInt (uid r)) i)
      in Inr (db\<lparr>users := filter (\<lambda>r. \<not> hit r) (users db)\<rparr>, length (filter hit (users db))))"

section \<open>User Service\<close>

definition user_json :: "user_row \<Rightarrow> json" where
  "user_json r =
     JObj [(''id'', JNum (uid r)), (''name'', js_of_sql (name r)), (''email'', js_of_sql (email r)),
           (''phone'', js_of_sql (phone r)), (''address'', js_of_sql (address r)),
           (''created_at'', js_of_sql (user_created_at r))]"

text \<open>\<open>{success: true, data: d}\<close>; a property whose value is \<open>undefined\<close> is not sent.\<close>

definition success_data :: "json option \<Rightarrow> json" where
  "success_data d =
     (case d of
        None \<Rightarrow> JObj [(''success'', JBool True)]
      | Some v \<Rightarrow> JObj [(''success'', JBool True), (''data'', v)])"

definition success_message :: "string \<Rightarrow> json" where
  "success_message m = JObj [(''success'', JBool True), (''message'', JStr m)]"

definition failure_message :: "nat \<Rightarrow> string \<Rightarrow> response" where
  "failure_message c m =
     \<lparr>code = c, payload = JObj [(''success'', JBool False), (''message'', JStr m)]\<rparr>"

definition get_users :: "engine \<Rightarrow> users_db \<Rightarrow> response" where
  "get_users eng db =
     (case with_engine (fault eng 0) (Inr (sort_key uid (users db))) of
        Inl e \<Rightarrow> failure 500 ''Error fetching users'' e
      | Inr rows \<Rightarrow> ok_json (success_data (Some (JArr (map user_json rows)))))"

definition get_users_id :: "engine \<Rightarrow> users_db \<Rightarrow> string \<Rightarrow> response" where
  "get_users_id eng db i =
     (case with_engine (fault eng 0) (Inr (select_users_id (number_of_text eng) db (SText i))) of
        Inl e \<Rightarrow> failure 500 ''Error fetching user'' e
      | Inr None \<Rightarrow> failure_message 404 ''User tidak ditemukan''
      | Inr (Some row) \<Rightarrow> ok_json (success_data (Some (user_json row))))"

definition post_users ::
  "string \<Rightarrow> engine \<Rightarrow> users_db \<Rightarrow> (string \<times> json) list \<Rightarrow> users_db \<times> response" where
  "post_users now eng db b =
     (let name = get_prop b ''name''; email = get_prop b ''email'';
          phone = get_prop b ''phone''; address = get_prop b ''address''
      in if \<not> truthy name \<or> \<not> truthy email \<or> \<not> truthy phone \<or> \<not> truthy address
         then (db, failure_message 400 ''Semua field wajib diisi'')
         else
           case with_engine (fault eng 0)
                  (insert_users now db (bind_param name) (bind_param email) (bind_param phone)
                     (bind_param address)) of
             Inl e \<Rightarrow> (db, failure 500 ''Error creating user'' e)
           | Inr (db', lastID) \<Rightarrow>
               (case with_engine (fault eng 1) (Inr (select_users_id (number_of_text eng) db' (SInt lastID))) of
                  Inl e \<Rightarrow> (db', failure 500 ''Error fetching created user'' e)
                | Inr row \<Rightarrow>
                    (db', \<lparr>code = 201, payload = success_data (map_option user_json row)\<rparr>)))"

definition put_users ::
  "engine \<Rightarrow> users_db \<Rightarrow> string \<Rightarrow> (string \<times> json) list \<Rightarrow> users_db \<times> response" where
  "put_users eng db i b =
     (let name = get_prop b ''name''; email = get_prop b ''email'';
          phone = get_prop b ''phone''; address = get_prop b ''address''
      in case with_engine (fault eng 0)
                (update_users (number_of_text eng) db (bind_param name) (bind_param email) (bind_param phone)
                   (bind_param address) (SText i)) of
           Inl e \<Rightarrow> (db, failure 500 ''Error updating user'' e)
         | Inr (db', changes) \<Rightarrow>
             if changes = 0 then (db', failure_message 404 ''User tidak ditemukan'')
             else
               (case with_engine (fault eng 1) (Inr (select_users_id (number_of_text eng) db' (SText i))) of
                  Inl e \<Rightarrow> (db', failure 500 ''Error fetching updated user'' e)
                | Inr row \<Rightarrow> (db', ok_json (success_data (map_option user_json row)))))"

definition delete_users :: "engine \<Rightarrow> users_db \<Rightarrow> string \<Rightarrow> users_db \<times> response" where
  "delete_users eng db i =
     (case with_engine (fault eng 0) (delete_from_users (number_of_text eng) db (SText i)) of
        Inl e \<Rightarrow> (db, failure 500 ''Error deleting user'' e)
      | Inr (db', changes) \<Rightarrow>
          if changes = 0 then (db', failure_message 404 ''User tidak ditemukan'')
          else (db', ok_json (success_message ''User berhasil dihapus'')))"

definition no_route :: response where
  "no_route = \<lparr>code = 404, payload = JNull\<rparr>"

definition user_service ::
  "string \<Rightarrow> engine \<Rightarrow> users_db \<Rightarrow> request \<Rightarrow> users_db \<times> response" where
  "user_service now eng db rq =
     (case (meth rq, route_path (url_path rq)) of
        (GET, [u]) \<Rightarrow> if u = ''users'' then (db, get_users eng db) else (db, no_route)
      | (GET, [u, i]) \<Rightarrow> if u = ''users'' then (db, get_users_id eng db i) else (db, no_route)
      | (POST, [u]) \<Rightarrow> if u = ''users'' then post_users now eng db (body rq) else (db, no_route)
      | (PUT, [u, i]) \<Rightarrow> if u = ''users'' then put_users eng db i (body rq) else (db, no_route)
      | (DELETE, [u, i]) \<Rightarrow> if u = ''users'' then delete_users eng db i else (db, no_route)
      | _ \<Rightarrow> (db, no_route))"

text \<open>The User Service as its clients reach it, when the network delivers.\<close>

definition user_service_at :: "string \<Rightarrow> engine \<Rightarrow> users_db \<Rightarrow> service" where
  "user_service_at now eng db = (\<lambda>rq. Inr (snd (user_service now eng db rq)))"

subsection \<open>Table \<open>orders\<close>\<close>

record order_row =
  oid :: int
  user_id :: sqlval
  restaurant_name :: sqlval
  items :: sqlval
  total_price :: sqlval
  status :: sqlval
  created_at :: sqlval

record orders_db =
  orders :: "order_row list"
  orders_seq :: int

definition select_orders_id ::
  "(string \<Rightarrow> int option) \<Rightarrow> orders_db \<Rightarrow> sqlval \<Rightarrow> order_row option" where
  "select_orders_id x db p = find (\<lambda>r. integer_column_equals x (SInt (oid r)) p) (orders db)"

text \<open>\<open>SELECT * FROM orders [WHERE user_id = ?] ORDER BY id DESC\<close>\<close>

definition select_orders ::
  "(string \<Rightarrow> int option) \<Rightarrow> orders_db \<Rightarrow> sqlval option \<Rightarrow> order_row list" where
  "select_orders x db p =
     rev (sort_key oid
       (case p of
          None \<Rightarrow> orders db
        | Some v \<Rightarrow> filter (\<lambda>r. integer_column_equals x (user_id r) v) (orders db)))"

text \<open>\<open>INSERT INTO orders (user_id, restaurant_name, items, total_price, status)
  VALUES (?, ?, ?, ?, ?)\<close>\<close>

definition insert_orders ::
  "(string \<Rightarrow> int option) \<Rightarrow> string \<Rightarrow> orders_db \<Rightarrow> sqlval \<Rightarrow> sqlval \<Rightarrow> sqlval \<Rightarrow> sqlval \<Rightarrow> sqlval
     \<Rightarrow> string + (orders_db \<times> int)" where
  "insert_orders x now db u n it t s =
     (let u' = affinity_integer x u; n' = affinity_text n; it' = affinity_text it;
          t' = affinity_integer x t; s' = affinity_text s
      in case not_null_violation ''orders''
                [(''user_id'', u'), (''restaurant_name'', n'), (''items'', it'),
                 (''total_price'', t')] of
           Some m \<Rightarrow> Inl m
         | None \<Rightarrow>
             let i = next_rowid (orders_seq db) (map oid (orders db))
             in Inr (db\<lparr>orders := orders db @
                          [\<lparr>oid = i, user_id = u', restaurant_name = n', items = it',
                            total_price = t', status = s', created_at = SText now\<rparr>],
                        orders_seq := i\<rparr>, i))"

text \<open>One \<open>column = ?\<close> of the \<open>SET\<close> clause that \<open>PUT /orders/:id\<close> assembles.\<close>

definition assign :: "(string \<Rightarrow> int option) \<Rightarrow> string \<times> sqlval \<Rightarrow> order_row \<Rightarrow> order_row" where
  "assign x a r =
     (if fst a = ''status'' then r\<lparr>status := affinity_text (snd a)\<rparr>
      else if fst a = ''restaurant_name'' then r\<lparr>restaurant_name := affinity_text (snd a)\<rparr>
      else if fst a = ''items'' then r\<lparr>items := affinity_text (snd a)\<rparr>
      else if fst a = ''total_price'' then r\<lparr>total_price := affinity_integer x (snd a)\<rparr>
      else r)"

text \<open>\<open>UPDATE orders SET ... WHERE id = ?\<close>\<close>

definition update_orders ::
  "(string \<Rightarrow> int option) \<Rightarrow> orders_db \<Rightarrow> (string \<times> sqlval) list \<Rightarrow> sqlval \<Rightarrow> string + (orders_db \<times> nat)" where
  "update_orders x db sets i =
     (let hit = (\<lambda>r. integer_column_equals x (SInt (oid r)) i);
          changes = length (filter hit (orders db))
      in if changes = 0 then Inr (db, 0)
         else
           case not_null_violation ''orders''
                  (map (\<lambda>a. (fst a, if fst a = ''total_price'' then affinity_integer x (snd a)
                                     else affinity_text (snd a)))
                     (filter (\<lambda>a. fst a \<noteq> ''status'') sets)) of
             Some m \<Rightarrow> Inl m
           | None \<Rightarrow>
               Inr (db\<lparr>orders := map (\<lambda>r. if hit r then fold (assign x) sets r else r) (orders db)\<rparr>,
                    changes))"

definition delete_from_orders ::
  "(string \<Rightarrow> int option) \<Rightarrow> orders_db \<Rightarrow> sqlval \<Rightarrow> string + (orders_db \<times> nat)" where
  "delete_from_orders x db i =
     (let hit = (\<lambda>r. integer_column_equals x (SInt (oid r)) i)
      in Inr (db\<lparr>orders := filter (\<lambda>r. \<not> hit r) (orders db)\<rparr>, length (filter hit (orders db))))"

section \<open>Order Service\<close>

text \<open>A row as the store hands it to the handler.\<close>

definition order_fields :: "order_row \<Rightarrow> (string \<times> json) list" where
  "order_fields r =
     [(''id'', JNum (oid r)), (''user_id'', js_of_sql (user_id r)),
      (''restaurant_name'', js_of_sql (restaurant_name r)), (''items'', js_of_sql (items r)),
      (''total_price'', js_of_sql (total_price r)), (''status'', js_of_sql (status r)),
      (''created_at'', js_of_sql (created_at r))]"

text \<open>\<open>parseOrderRow\<close>: the row with its items decoded and four of its columns repeated under
  their external names.  \<open>Inl\<close> is the exception of \<open>JSON.parse\<close>.\<close>

definition parseOrderRow :: "order_row \<Rightarrow> string + (string \<times> json) list" where
  "parseOrderRow row =
     (case JSON_parse (js_to_string (js_of_sql (items row))) of
        None \<Rightarrow> Inl ''SyntaxError''
      | Some its \<Rightarrow>
          Inr (set_prop (set_prop (set_prop (set_prop (set_prop (order_fields row)
                 ''items'' its)
                 ''totalPrice'' (js_of_sql (total_price row)))
                 ''userId'' (js_of_sql (user_id row)))
                 ''restaurantName'' (js_of_sql (restaurant_name row)))
                 ''createdAt'' (js_of_sql (created_at row))))"

text \<open>\<open>rows.map(parseOrderRow)\<close>, which stops at the first exception.\<close>

fun parse_rows :: "order_row list \<Rightarrow> string + json list" where
  "parse_rows [] = Inr []"
| "parse_rows (r # rs) =
     (case parseOrderRow r of
        Inl x \<Rightarrow> Inl x
      | Inr order \<Rightarrow> (case parse_rows rs of Inl x \<Rightarrow> Inl x | Inr os \<Rightarrow> Inr (JObj order # os)))"

text \<open>The answer of a handler: \<open>Inl\<close> when an exception escapes it and no response is
  written.\<close>

definition get_orders :: "engine \<Rightarrow> orders_db \<Rightarrow> (string \<times> string) list \<Rightarrow> string + response" where
  "get_orders eng db q =
     (let params = (case map_of q ''userId'' of
                      None \<Rightarrow> None
                    | Some u \<Rightarrow> if u = [] then None else Some (SText u))
      in case with_engine (fault eng 0) (Inr (select_orders (number_of_text eng) db params)) of
           Inl e \<Rightarrow> Inr (failure 500 ''Error fetching orders'' e)
         | Inr rows \<Rightarrow>
             (case parse_rows rows of
                Inl x \<Rightarrow> Inl x
              | Inr os \<Rightarrow> Inr (ok_json (success_data (Some (JArr os))))))"

definition get_orders_id :: "engine \<Rightarrow> orders_db \<Rightarrow> string \<Rightarrow> string + response" where
  "get_orders_id eng db i =
     (case with_engine (fault eng 0) (Inr (select_orders_id (number_of_text eng) db (SText i))) of
        Inl e \<Rightarrow> Inr (failure 500 ''Error fetching order'' e)
      | Inr None \<Rightarrow> Inr (failure_message 404 ''Order tidak ditemukan'')
      | Inr (Some row) \<Rightarrow>
          (case parseOrderRow row of
             Inl x \<Rightarrow> Inl x
           | Inr order \<Rightarrow> Inr (ok_json (success_data (Some (JObj order))))))"

text \<open>What a handler does besides answering: the statements it runs and the calls it sends,
  in order.\<close>

datatype event = DbGet string | HttpGet request

text \<open>\<open>userResponse.data.data\<close>: reading a property of \<open>null\<close> throws, of another value
  that is not an object gives \<open>undefined\<close>.\<close>

fun data_of :: "json \<Rightarrow> string + json option" where
  "data_of JNull = Inl ''Cannot read properties of null (reading 'data')''"
| "data_of (JObj ps) = Inr (get_prop ps ''data'')"
| "data_of v = Inr None"

definition with_user_details :: "(string \<times> json) list \<Rightarrow> json option \<Rightarrow> (string \<times> json) list" where
  "with_user_details order d = (case d of None \<Rightarrow> order | Some v \<Rightarrow> set_prop order ''userDetails'' v)"

definition user_request :: "(string \<times> json) list \<Rightarrow> request" where
  "user_request order =
     upstream_get
       [''users'', (case get_prop order ''userId'' of None \<Rightarrow> ''undefined'' | Some v \<Rightarrow> js_to_string v)]
       []"

definition get_orders_id_with_user ::
  "service \<Rightarrow> engine \<Rightarrow> orders_db \<Rightarrow> string \<Rightarrow> event list \<times> (string + response)" where
  "get_orders_id_with_user us eng db i =
     (case with_engine (fault eng 0) (Inr (select_orders_id (number_of_text eng) db (SText i))) of
        Inl e \<Rightarrow> ([DbGet i], Inr (failure 500 ''Error fetching order'' e))
      | Inr None \<Rightarrow> ([DbGet i], Inr (failure_message 404 ''Order tidak ditemukan''))
      | Inr (Some row) \<Rightarrow>
          (case parseOrderRow row of
             Inl x \<Rightarrow> ([DbGet i], Inl x)
           | Inr order \<Rightarrow>
               ([DbGet i, HttpGet (user_request order)],
                case axios us (user_request order) of
                  Inl userError \<Rightarrow> Inr (failure 500 ''Gagal mengambil data user'' (message userError))
                | Inr userResponse \<Rightarrow>
                    (case data_of (payload userResponse) of
                       Inl m \<Rightarrow> Inr (failure 500 ''Gagal mengambil data user'' m)
                     | Inr d \<Rightarrow>
                         Inr (ok_json (success_data (Some (JObj (with_user_details order d)))))))))"

definition post_orders ::
  "string \<Rightarrow> engine \<Rightarrow> orders_db \<Rightarrow> (string \<times> json) list \<Rightarrow> orders_db \<times> (string + response)" where
  "post_orders now eng db b =
     (let userId = get_prop b ''userId''; restaurantName = get_prop b ''restaurantName'';
          items = get_prop b ''items''; totalPrice = get_prop b ''totalPrice''
      in if \<not> truthy userId \<or> \<not> truthy restaurantName \<or> \<not> truthy items \<or> \<not> truthy totalPrice
         then (db, Inr (failure_message 400 ''Semua field wajib diisi''))
         else
           let itemsJson = map_option (\<lambda>v. JStr (JSON_stringify v)) items
           in case with_engine (fault eng 0)
                     (insert_orders (number_of_text eng) now db (bind_param userId) (bind_param restaurantName)
                        (bind_param itemsJson) (bind_param totalPrice) (SText ''pending'')) of
                Inl e \<Rightarrow> (db, Inr (failure 500 ''Error creating order'' e))
              | Inr (db', lastID) \<Rightarrow>
                  (case with_engine (fault eng 1) (Inr (select_orders_id (number_of_text eng) db' (SInt lastID))) of
                     Inl e \<Rightarrow> (db', Inr (failure 500 ''Error fetching created order'' e))
                   | Inr None \<Rightarrow> (db', Inl ''TypeError'')
                   | Inr (Some row) \<Rightarrow>
                       (case parseOrderRow row of
                          Inl x \<Rightarrow> (db', Inl x)
                        | Inr order \<Rightarrow>
                            (db', Inr \<lparr>code = 201, payload = success_data (Some (JObj order))\<rparr>))))"

text \<open>The \<open>SET\<close> clause of \<open>PUT /orders/:id\<close>: one entry for each of the four fields whose
  value in the body is truthy, in the order the source tests them.\<close>

definition updateFields :: "(string \<times> json) list \<Rightarrow> (string \<times> sqlval) list" where
  "updateFields b =
     (let status = get_prop b ''status''; restaurantName = get_prop b ''restaurantName'';
          items = get_prop b ''items''; totalPrice = get_prop b ''totalPrice''
      in (if truthy status then [(''status'', bind_param status)] else [])
       @ (if truthy restaurantName then [(''restaurant_name'', bind_param restaurantName)] else [])
       @ (if truthy items
          then [(''items'', bind_param (map_option (\<lambda>v. JStr (JSON_stringify v)) items))] else [])
       @ (if truthy totalPrice then [(''total_price'', bind_param totalPrice)] else []))"

definition put_orders ::
  "engine \<Rightarrow> orders_db \<Rightarrow> string \<Rightarrow> (string \<times> json) list \<Rightarrow> orders_db \<times> (string + response)" where
  "put_orders eng db i b =
     (if length (updateFields b) = 0
      then (db, Inr (failure_message 400 ''Tidak ada field yang diupdate''))
      else
        case with_engine (fault eng 0) (update_orders (number_of_text eng) db (updateFields b) (SText i)) of
          Inl e \<Rightarrow> (db, Inr (failure 500 ''Error updating order'' e))
        | Inr (db', changes) \<Rightarrow>
            if changes = 0 then (db', Inr (failure_message 404 ''Order tidak ditemukan''))
            else
              (case with_engine (fault eng 1) (Inr (select_orders_id (number_of_text eng) db' (SText i))) of
                 Inl e \<Rightarrow> (db', Inr (failure 500 ''Error fetching updated order'' e))
               | Inr None \<Rightarrow> (db', Inl ''TypeError'')
               | Inr (Some row) \<Rightarrow>
                   (case parseOrderRow row of
                      Inl x \<Rightarrow> (db', Inl x)
                    | Inr order \<Rightarrow> (db', Inr (ok_json (success_data (Some (JObj order))))))))"

definition delete_orders :: "engine \<Rightarrow> orders_db \<Rightarrow> string \<Rightarrow> orders_db \<times> (string + response)" where
  "delete_orders eng db i =
     (case with_engine (fault eng 0) (delete_from_orders (number_of_text eng) db (SText i)) of
        Inl e \<Rightarrow> (db, Inr (failure 500 ''Error deleting order'' e))
      | Inr (db', changes) \<Rightarrow>
          if changes = 0 then (db', Inr (failure_message 404 ''Order tidak ditemukan''))
          else (db', Inr (ok_json (success_message ''Order berhasil dihapus''))))"

definition order_service ::
  "service \<Rightarrow> string \<Rightarrow> engine \<Rightarrow> orders_db \<Rightarrow> request \<Rightarrow> orders_db \<times> (string + response)" where
  "order_service us now eng db rq =
     (case (meth rq, route_path (url_path rq)) of
        (GET, [h]) \<Rightarrow>
          if h = ''orders'' then (db, get_orders eng db (query rq)) else (db, Inr no_route)
      | (GET, [h, i]) \<Rightarrow>
          if h = ''orders'' then (db, get_orders_id eng db i) else (db, Inr no_route)
      | (GET, [h, i, w]) \<Rightarrow>
          if h = ''orders'' \<and> w = ''with-user''
          then (db, snd (get_orders_id_with_user us eng db i)) else (db, Inr no_route)
      | (POST, [h]) \<Rightarrow>
          if h = ''orders'' then post_orders now eng db (body rq) else (db, Inr no_route)
      | (PUT, [h, i]) \<Rightarrow>
          if h = ''orders'' then put_orders eng db i (body rq) else (db, Inr no_route)
      | (DELETE, [h, i]) \<Rightarrow>
          if h = ''orders'' then delete_orders eng db i else (db, Inr no_route)
      | _ \<Rightarrow> (db, Inr no_route))"

text \<open>The Order Service as its clients reach it, when the network delivers.  A request
  whose handler throws gets no answer: the exception is raised in a callback of the store,
  outside the framework, and the connection closes.\<close>

definition order_service_at :: "service \<Rightarrow> string \<Rightarrow> engine \<Rightarrow> orders_db \<Rightarrow> service" where
  "order_service_at us now eng db =
     (\<lambda>rq. case snd (order_service us now eng db rq) of
             Inl x \<Rightarrow> Inl ''socket hang up''
           | Inr r \<Rightarrow> Inr r)"

section \<open>Initial data\<close>

text \<open>\<open>seedInitialData\<close> of the two services: a table that is empty when the service
  starts gets two rows.  \<open>seeded_users\<close> and \<open>seeded_orders\<close> are the tables of a first start
  at time \<open>now\<close>.\<close>

definition empty_users :: users_db where
  "empty_users = \<lparr>users = [], users_seq = 0\<rparr>"

definition empty_orders :: orders_db where
  "empty_orders = \<lparr>orders = [], orders_seq = 0\<rparr>"

definition seed_user :: "string \<Rightarrow> string \<times> string \<times> string \<times> string \<Rightarrow> users_db \<Rightarrow> users_db" where
  "seed_user now u db =
     (case u of
        (n, e, p, a) \<Rightarrow>
          (case insert_users now db (SText n) (SText e) (SText p) (SText a) of
             Inl m \<Rightarrow> db
           | Inr (db', i) \<Rightarrow> db'))"

definition seedInitialData_users :: "string \<Rightarrow> users_db \<Rightarrow> users_db" where
  "seedInitialData_users now db =
     (if length (users db) = 0
      then fold (seed_user now)
             [(''John Doe'', ''john@example.com'', ''081234567890'', ''Jl. Sudirman No. 1, Jakarta''),
              (''Jane Smith'', ''jane@example.com'', ''081234567891'', ''Jl. Thamrin No. 2, Jakarta'')]
             db
      else db)"

definition seeded_users :: "string \<Rightarrow> users_db" where
  "seeded_users now = seedInitialData_users now empty_users"

definition seed_order ::
  "(string \<Rightarrow> int option) \<Rightarrow> string \<Rightarrow> int \<times> string \<times> string list \<times> int \<times> string \<Rightarrow> orders_db \<Rightarrow> orders_db" where
  "seed_order x now ord db =
     (case ord of
        (u, n, its, t, s) \<Rightarrow>
          (case insert_orders x now db (SInt u) (SText n)
                  (SText (JSON_stringify (JArr (map JStr its)))) (SInt t) (SText s) of
             Inl m \<Rightarrow> db
           | Inr (db', i) \<Rightarrow> db'))"

definition seedInitialData_orders ::
  "(string \<Rightarrow> int option) \<Rightarrow> string \<Rightarrow> orders_db \<Rightarrow> orders_db" where
  "seedInitialData_orders x now db =
     (if length (orders db) = 0
      then fold (seed_order x now)
             [(1, ''Nasi Goreng Kambing'', [''Nasi Goreng Kambing'', ''Es Teh Manis''], 45000,
               ''delivered''),
              (2, ''Ayam Geprek Bensu'', [''Ayam Geprek Level 5'', ''Jus Alpukat''], 35000,
               ''on_delivery'')]
             db
      else db)"

definition seeded_orders :: "(string \<Rightarrow> int option) \<Rightarrow> string \<Rightarrow> orders_db" where
  "seeded_orders x now = seedInitialData_orders x now empty_orders"

section \<open>Reference environments\<close>

text \<open>An engine rule for the examples: the reading of SQLite for a text that spells a number
  of fewer than sixteen digits with an exponent of at most four.  The text is blanks, a
  sign, digits with an optional point among them, an optional exponent, and blanks; it is
  read as an integer when the number it spells is one.  Longer numbers, which the engine
  rounds in floating point, are not read by this rule.\<close>

definition is_blank :: "char \<Rightarrow> bool" where
  "is_blank c =
     (c = CHR 0x20 \<or> c = CHR 0x09 \<or> c = CHR 0x0A \<or> c = CHR 0x0B \<or> c = CHR 0x0C \<or> c = CHR 0x0D)"

fun int_of_digits :: "int \<Rightarrow> string \<Rightarrow> int" where
  "int_of_digits acc [] = acc"
| "int_of_digits acc (c # cs) = int_of_digits (10 * acc + int (digit_val c)) cs"

text \<open>\<open>m\<close> times ten to the power \<open>k\<close>, when that is an integer below \<open>10^15\<close>.\<close>

definition scaled :: "int \<Rightarrow> int \<Rightarrow> int option" where
  "scaled m k =
     (if m = 0 then Some 0
      else if 10 ^ 15 \<le> m \<or> 15 < k \<or> k < - 15 then None
      else if 0 \<le> k then (if 10 ^ 15 \<le> m * 10 ^ nat k then None else Some (m * 10 ^ nat k))
      else if m mod 10 ^ nat (- k) \<noteq> 0 then None
      else Some (m div 10 ^ nat (- k)))"

text \<open>\<open>ds\<close> are the digits before and after the point, \<open>nfrac\<close> the number of those after
  it, \<open>eds\<close> the digits of the exponent and \<open>eneg\<close> its sign.\<close>

definition finish :: "string \<Rightarrow> nat \<Rightarrow> bool \<Rightarrow> string \<Rightarrow> string \<Rightarrow> int option" where
  "finish ds nfrac eneg eds rest =
     (if dropWhile is_blank rest \<noteq> [] \<or> ds = [] \<or> 4 < length eds then None
      else scaled (int_of_digits 0 ds)
             ((if eneg then - int_of_digits 0 eds else int_of_digits 0 eds) - int nfrac))"

definition exponent :: "string \<Rightarrow> nat \<Rightarrow> bool \<Rightarrow> string \<Rightarrow> int option" where
  "exponent ds nfrac eneg r =
     (if takeWhile is_digit r = [] then None
      else finish ds nfrac eneg (takeWhile is_digit r) (dropWhile is_digit r))"

definition after_mantissa :: "string \<Rightarrow> nat \<Rightarrow> string \<Rightarrow> int option" where
  "after_mantissa ds nfrac r =
     (case r of
        [] \<Rightarrow> finish ds nfrac False [] []
      | c # r' \<Rightarrow>
          if c = CHR ''e'' \<or> c = CHR ''E''
          then (case r' of
                  [] \<Rightarrow> None
                | d # r'' \<Rightarrow>
                    if d = CHR ''-'' then exponent ds nfrac True r''
                    else if d = CHR ''+'' then exponent ds nfrac False r''
                    else exponent ds nfrac False r')
          else finish ds nfrac False [] r)"

definition after_whole :: "string \<Rightarrow> string \<Rightarrow> int option" where
  "after_whole w r =
     (case r of
        [] \<Rightarrow> after_mantissa w 0 []
      | c # r' \<Rightarrow>
          if c = CHR ''.''
          then after_mantissa (w @ takeWhile is_digit r') (length (takeWhile is_digit r'))
                 (dropWhile is_digit r')
          else after_mantissa w 0 r)"

definition unsigned :: "string \<Rightarrow> int option" where
  "unsigned u = after_whole (takeWhile is_digit u) (dropWhile is_digit u)"

definition decimal_literal :: "string \<Rightarrow> int option" where
  "decimal_literal s =
     (case dropWhile is_blank s of
        [] \<Rightarrow> None
      | c # t \<Rightarrow>
          if c = CHR ''-'' then map_option uminus (unsigned t)
          else if c = CHR ''+'' then unsigned t
          else unsigned (c # t))"

text \<open>An engine with that rule on which every statement runs, a server that cannot be
  reached, and a server that gives the same answer to every request.\<close>

definition no_fault :: engine where
  "no_fault = \<lparr>fault = (\<lambda>k. None), number_of_text = decimal_literal\<rparr>"

definition unreachable :: service where
  "unreachable = (\<lambda>rq. Inl ''connect ECONNREFUSED'')"

definition answering :: "response \<Rightarrow> service" where
  "answering r = (\<lambda>rq. Inr r)"

text \<open>The seeded tables, and the body of a create request with a \<open>status\<close> of its own.\<close>

definition sample_orders :: orders_db where
  "sample_orders = seeded_orders decimal_literal ''2024-01-01 00:00:00''"

definition sample_users :: users_db where
  "sample_users = seeded_users ''2024-01-01 00:00:00''"

definition sample_body :: "(string \<times> json) list" where
  "sample_body =
     [(''userId'', JNum 1), (''restaurantName'', JStr ''Sate Padang Ajo Ramon''),
      (''items'', JArr (map JStr [''Sate Padang'', ''Lontong'', ''Es Teh''])),
      (''totalPrice'', JNum 50000), (''status'', JStr ''delivered'')]"



section \<open>The tokens of an encoded value\<close>

text \<open>The token sequence that \<open>JSON_stringify v\<close> spells, and the value the decoder builds
  from it: the same value, except that of the members of an object with one key only the
  last is kept.\<close>

definition ends_number :: "string \<Rightarrow> bool" where
  "ends_number r = (r = [] \<or> hd r = CHR '','' \<or> hd r = CHR '']'' \<or> hd r = CHR ''}'')"

fun sep_toks :: "tok list list \<Rightarrow> tok list" where
  "sep_toks [] = []"
| "sep_toks [x] = x"
| "sep_toks (x # y # ys) = x @ TComma # sep_toks (y # ys)"

fun toks :: "json \<Rightarrow> tok list" where
  "toks JNull = [TNull]"
| "toks (JBool b) = [if b then TTrue else TFalse]"
| "toks (JNum n) = [TNum n]"
| "toks (JStr s) = [TStr s]"
| "toks (JArr xs) = TLBracket # sep_toks (map toks xs) @ [TRBracket]"
| "toks (JObj ps) =
     TLBrace # sep_toks (map (\<lambda>p. TStr (fst p) # TColon # toks (snd p)) ps) @ [TRBrace]"

fun decoded :: "json \<Rightarrow> json" where
  "decoded (JArr xs) = JArr (map decoded xs)"
| "decoded (JObj ps) = JObj (fold (\<lambda>p acc. set_prop acc (fst p) (decoded (snd p))) ps [])"
| "decoded v = v"

section \<open>Properties of the store\<close>

lemma affinity_text_null [simp]: "affinity_text v = SNull \<longleftrightarrow> v = SNull"
  by (cases v) simp_all

lemma affinity_integer_null [simp]: "affinity_integer x v = SNull \<longleftrightarrow> v = SNull"
  by (cases v) (simp_all split: option.splits)


lemma not_null_violation_None:
  "not_null_violation tbl cols = None \<longleftrightarrow> (\<forall>c \<in> set cols. snd c \<noteq> SNull)"
proof -
  have "not_null_violation tbl cols = None \<longleftrightarrow> filter (\<lambda>(c, v). v = SNull) cols = []"
    by (simp add: not_null_violation_def split: list.splits prod.splits)
  also have "\<dots> \<longleftrightarrow> (\<forall>c \<in> set cols. snd c \<noteq> SNull)"
    by (auto simp: filter_empty_conv)
  finally show ?thesis .
qed





lemma assign_keeps_key [simp]:
  "oid (assign x a r) = oid r" "user_id (assign x a r) = user_id r"
  "created_at (assign x a r) = created_at r"
  by (simp_all add: assign_def)

lemma fold_assign_keeps_key [simp]:
  "oid (fold (assign x) sets r) = oid r \<and> user_id (fold (assign x) sets r) = user_id r
   \<and> created_at (fold (assign x) sets r) = created_at r"
  by (induction sets arbitrary: r) simp_all

lemma fold_assign_frame:
  "''status'' \<notin> fst ` set sets \<Longrightarrow> status (fold (assign x) sets r) = status r"
  "''restaurant_name'' \<notin> fst ` set sets \<Longrightarrow> restaurant_name (fold (assign x) sets r) = restaurant_name r"
  "''items'' \<notin> fst ` set sets \<Longrightarrow> items (fold (assign x) sets r) = items r"
  "''total_price'' \<notin> fst ` set sets \<Longrightarrow> total_price (fold (assign x) sets r) = total_price r"
  by (induction sets arbitrary: r) (auto simp: assign_def)

lemma updateFields_keys:
  "''status'' \<in> fst ` set (updateFields b) \<longleftrightarrow> truthy (get_prop b ''status'')"
  "''restaurant_name'' \<in> fst ` set (updateFields b) \<longleftrightarrow> truthy (get_prop b ''restaurantName'')"
  "''items'' \<in> fst ` set (updateFields b) \<longleftrightarrow> truthy (get_prop b ''items'')"
  "''total_price'' \<in> fst ` set (updateFields b) \<longleftrightarrow> truthy (get_prop b ''totalPrice'')"
  by (auto simp: updateFields_def Let_def)

lemma updateFields_empty:
  "updateFields b = [] \<longleftrightarrow>
     \<not> truthy (get_prop b ''status'') \<and> \<not> truthy (get_prop b ''restaurantName'')
     \<and> \<not> truthy (get_prop b ''items'') \<and> \<not> truthy (get_prop b ''totalPrice'')"
  by (simp add: updateFields_def Let_def)

lemma update_orders_rows:
  "update_orders x db sets i = Inr (db', n) \<Longrightarrow>
     db' = db \<or>
     db' = db\<lparr>orders := map (\<lambda>r. if integer_column_equals x (SInt (oid r)) i
                                    then fold (assign x) sets r else r) (orders db)\<rparr>"
  by (auto simp: update_orders_def Let_def split: if_splits option.splits)

lemma put_orders_db:
  "fst (put_orders eng db i b) = db \<or>
   fst (put_orders eng db i b) =
     db\<lparr>orders := map (\<lambda>r. if integer_column_equals (number_of_text eng) (SInt (oid r)) (SText i)
                              then fold (assign (number_of_text eng)) (updateFields b) r else r) (orders db)\<rparr>"
proof (cases "with_engine (fault eng 0) (update_orders (number_of_text eng) db (updateFields b) (SText i))")
  case (Inl e)
  then show ?thesis by (simp add: put_orders_def)
next
  case (Inr res)
  obtain db' n where res: "res = (db', n)" by (cases res)
  with Inr have "update_orders (number_of_text eng) db (updateFields b) (SText i) = Inr (db', n)"
    by (simp add: with_engine_def split: option.splits)
  from update_orders_rows [OF this] have
    "db' = db \<or> db' = db\<lparr>orders := map (\<lambda>r. if integer_column_equals (number_of_text eng) (SInt (oid r)) (SText i)
                              then fold (assign (number_of_text eng)) (updateFields b) r else r) (orders db)\<rparr>" .
  moreover have "fst (put_orders eng db i b) = db \<or> fst (put_orders eng db i b) = db'"
    using Inr res by (simp add: put_orders_def split: sum.splits option.splits)
  ultimately show ?thesis by auto
qed


section \<open>Keys and their decimal text\<close>

lemma digit_char_props:
  assumes "d < 10"
  shows "is_digit (digit_char d)" and "digit_val (digit_char d) = d"
  using assms by (simp_all add: is_digit_def digit_val_def digit_char_def)

lemma nat_of_digits_snoc:
  "nat_of_digits acc (xs @ [c]) = 10 * nat_of_digits acc xs + digit_val c"
  by (induction xs arbitrary: acc) simp_all

lemma dec_nat_digits: "dec_nat n \<noteq> [] \<and> list_all is_digit (dec_nat n) \<and> nat_of_digits 0 (dec_nat n) = n"
proof (induction n rule: dec_nat.induct)
  case (1 n)
  show ?case
  proof (cases "n < 10")
    case True
    then show ?thesis
      by (subst (1 2 3) dec_nat.simps) (simp add: digit_char_props)
  next
    case False
    with 1 have ih: "dec_nat (n div 10) \<noteq> [] \<and> list_all is_digit (dec_nat (n div 10))
        \<and> nat_of_digits 0 (dec_nat (n div 10)) = n div 10"
      by simp
    have m: "n mod 10 < 10" by simp
    from False ih show ?thesis
      by (subst (1 2 3) dec_nat.simps)
         (simp add: nat_of_digits_snoc digit_char_props [OF m])
  qed
qed

lemma dec_nat_hd_digit: "is_digit (hd (dec_nat n))"
  using dec_nat_digits [of n] by (cases "dec_nat n") simp_all

lemma is_digit_not_sign: "is_digit c \<Longrightarrow> c \<noteq> CHR ''-'' \<and> c \<noteq> CHR ''+''"
  by (auto simp: is_digit_def)

lemma signed_digits_dec: "signed_digits (dec n) = Some n"
proof (cases "n < 0")
  case True
  then show ?thesis
    using dec_nat_digits [of "nat (- n)"]
    by (simp add: signed_digits_def dec_def)
next
  case False
  have "hd (dec_nat (nat n)) \<noteq> CHR ''-'' \<and> hd (dec_nat (nat n)) \<noteq> CHR ''+''"
    using dec_nat_hd_digit is_digit_not_sign by blast
  with False show ?thesis
    using dec_nat_digits [of "nat n"]
    by (simp add: signed_digits_def dec_def)
qed

lemma text_integer_dec [simp]: "text_integer x (dec n) = Some n"
  by (simp add: text_integer_def signed_digits_dec)

lemma integer_column_equals_dec [simp]:
  "integer_column_equals x (SInt k) (SText (dec n)) \<longleftrightarrow> k = n"
  by (auto simp: integer_column_equals_def)

lemma integer_column_equals_int [simp]:
  "integer_column_equals x (SInt k) (SInt n) \<longleftrightarrow> k = n"
  by (auto simp: integer_column_equals_def)

lemma fold_max_ge: "(seq::int) \<le> fold max ids seq \<and> (\<forall>i \<in> set ids. i \<le> fold max ids seq)"
proof (induction ids arbitrary: seq)
  case Nil
  then show ?case by simp
next
  case (Cons a ids)
  from Cons [of "max a seq"] show ?case by auto
qed

lemma next_rowid_fresh: "i \<in> set ids \<Longrightarrow> i < next_rowid seq ids"
  using fold_max_ge [of seq ids] by (auto simp: next_rowid_def)

lemma find_append_fresh:
  "\<forall>r \<in> set rows. \<not> P r \<Longrightarrow> P new \<Longrightarrow> find P (rows @ [new]) = Some new"
  by (induction rows) simp_all

lemma insert_orders_Inr:
  assumes "insert_orders x now db u n it t s = Inr (db', i)"
  shows "i = next_rowid (orders_seq db) (map oid (orders db))
       \<and> db' = db\<lparr>orders := orders db @
                    [\<lparr>oid = i, user_id = affinity_integer x u, restaurant_name = affinity_text n,
                      items = affinity_text it, total_price = affinity_integer x t,
                      status = affinity_text s, created_at = SText now\<rparr>],
                  orders_seq := i\<rparr>"
  using assms by (auto simp: insert_orders_def Let_def split: option.splits)

lemma select_inserted_order:
  assumes "insert_orders x now db u n it t s = Inr (db', i)"
  shows "select_orders_id y db' (SInt i) = Some (last (orders db'))"
    and "select_orders_id y db' (SText (dec i)) = Some (last (orders db'))"
    and "oid (last (orders db')) = i"
proof -
  let ?new = "\<lparr>oid = i, user_id = affinity_integer x u, restaurant_name = affinity_text n,
                      items = affinity_text it, total_price = affinity_integer x t,
                      status = affinity_text s, created_at = SText now\<rparr>"
  from insert_orders_Inr [OF assms] have i: "i = next_rowid (orders_seq db) (map oid (orders db))"
    and db': "orders db' = orders db @ [?new]" by simp_all
  have fresh: "\<forall>r \<in> set (orders db). oid r \<noteq> i"
    using next_rowid_fresh [of _ "map oid (orders db)" "orders_seq db"] i by fastforce
  show "select_orders_id y db' (SInt i) = Some (last (orders db'))"
    unfolding select_orders_id_def db' using fresh
    by (subst find_append_fresh) simp_all
  show "select_orders_id y db' (SText (dec i)) = Some (last (orders db'))"
    unfolding select_orders_id_def db' using fresh
    by (subst find_append_fresh) simp_all
  show "oid (last (orders db')) = i"
    by (simp add: db')
qed

section \<open>Decoding what was encoded\<close>

subsection \<open>String literals\<close>

lemma hex_val_hex_char: "d < 16 \<Longrightarrow> hex_val (hex_char d) = Some d"
  by (auto simp: hex_val_def hex_char_def Let_def)

lemma lex_string_cons_plain:
  "c \<noteq> CHR 0x22 \<Longrightarrow> c \<noteq> CHR 0x5C \<Longrightarrow> \<not> (of_char c :: nat) < 32 \<Longrightarrow>
     lex_string (c # t) = map_option (\<lambda>(s, r). (c # s, r)) (lex_string t)"
  by simp

lemma lex_string_escape2:
  "unescape e = Some d \<Longrightarrow> e \<noteq> CHR ''u'' \<Longrightarrow>
     lex_string (CHR 0x5C # e # t) = map_option (\<lambda>(s, r). (d # s, r)) (lex_string t)"
  by simp

lemma lex_string_escape_u:
  assumes "(of_char c :: nat) < 32"
  shows "lex_string (CHR 0x5C # CHR ''u'' # CHR ''0'' # CHR ''0'' #
             hex_char ((of_char c :: nat) div 16) # hex_char ((of_char c :: nat) mod 16) # t)
         = map_option (\<lambda>(s, r). (c # s, r)) (lex_string t)"
proof -
  let ?n = "of_char c :: nat"
  have a: "hex_val (hex_char (?n div 16)) = Some (?n div 16)"
    using assms by (intro hex_val_hex_char) simp
  have b: "hex_val (hex_char (?n mod 16)) = Some (?n mod 16)"
    by (intro hex_val_hex_char) simp
  have z: "hex_val (CHR ''0'') = Some 0"
    by (simp add: hex_val_def)
  have h: "hex4 (CHR ''0'') (CHR ''0'') (hex_char (?n div 16)) (hex_char (?n mod 16)) = Some ?n"
    by (simp add: hex4_def a b z)
  have lt: "?n < 256" using assms by simp
  show ?thesis
    by (simp add: h lt)
qed

lemma lex_string_escape_char:
  "lex_string (escape_char c @ t) = map_option (\<lambda>(s, r). (c # s, r)) (lex_string t)"
proof -
  consider (q) "c = CHR 0x22" | (b) "c = CHR 0x5C" | (bs) "c = CHR 0x08" | (ff) "c = CHR 0x0C"
    | (nl) "c = CHR 0x0A" | (cr) "c = CHR 0x0D" | (tab) "c = CHR 0x09"
    | (ctl) "c \<noteq> CHR 0x22" "c \<noteq> CHR 0x5C" "c \<noteq> CHR 0x08" "c \<noteq> CHR 0x0C" "c \<noteq> CHR 0x0A"
        "c \<noteq> CHR 0x0D" "c \<noteq> CHR 0x09" "(of_char c :: nat) < 32"
    | (plain) "c \<noteq> CHR 0x22" "c \<noteq> CHR 0x5C" "c \<noteq> CHR 0x08" "c \<noteq> CHR 0x0C" "c \<noteq> CHR 0x0A"
        "c \<noteq> CHR 0x0D" "c \<noteq> CHR 0x09" "\<not> (of_char c :: nat) < 32"
    by blast
  then show ?thesis
  proof cases
    case q
    then show ?thesis by (simp add: escape_char_def unescape_def)
  next
    case b
    then show ?thesis by (simp add: escape_char_def unescape_def)
  next
    case bs
    then show ?thesis by (simp add: escape_char_def unescape_def)
  next
    case ff
    then show ?thesis by (simp add: escape_char_def unescape_def)
  next
    case nl
    then show ?thesis by (simp add: escape_char_def unescape_def)
  next
    case cr
    then show ?thesis by (simp add: escape_char_def unescape_def)
  next
    case tab
    then show ?thesis by (simp add: escape_char_def unescape_def)
  next
    case ctl
    then have "escape_char c @ t = CHR 0x5C # CHR ''u'' # CHR ''0'' # CHR ''0'' #
             hex_char ((of_char c :: nat) div 16) # hex_char ((of_char c :: nat) mod 16) # t"
      by (simp add: escape_char_def)
    then show ?thesis
      using lex_string_escape_u [OF ctl(8)] by (simp only:)
  next
    case plain
    then have "escape_char c @ t = c # t"
      by (simp add: escape_char_def)
    then show ?thesis
      using lex_string_cons_plain [OF plain(1) plain(2) plain(8)] by (simp only:)
  qed
qed

lemma lex_string_escaped:
  "lex_string (concat (map escape_char s) @ CHR 0x22 # rest) = Some (s, rest)"
proof (induction s)
  case Nil
  show ?case by simp
next
  case (Cons c s)
  have "lex_string (concat (map escape_char (c # s)) @ CHR 0x22 # rest)
      = lex_string (escape_char c @ (concat (map escape_char s) @ CHR 0x22 # rest))"
    by simp
  also have "\<dots> = map_option (\<lambda>(s, r). (c # s, r)) (lex_string (concat (map escape_char s) @ CHR 0x22 # rest))"
    by (rule lex_string_escape_char)
  also have "\<dots> = Some (c # s, rest)"
    by (simp add: Cons.IH)
  finally show ?case .
qed

lemma lex_token_quote: "lex_token (quote s @ rest) = Some (TStr s, rest)"
  by (simp add: quote_def lex_token_def punct_def lex_string_escaped)

subsection \<open>Numbers, words and punctuation\<close>

lemma ends_number_simps [simp]:
  "ends_number []" "ends_number (CHR '','' # r)" "ends_number (CHR '']'' # r)" "ends_number (CHR ''}'' # r)"
  by (simp_all add: ends_number_def)

lemma ends_number_no_digit:
  "ends_number r \<Longrightarrow> r = [] \<or> (\<not> is_digit (hd r) \<and> hd r \<noteq> CHR ''.'' \<and> hd r \<noteq> CHR ''e'' \<and> hd r \<noteq> CHR ''E'')"
  by (auto simp: ends_number_def is_digit_def)

lemma takeWhile_digits:
  assumes "list_all is_digit ds" and "r = [] \<or> \<not> is_digit (hd r)"
  shows "takeWhile is_digit (ds @ r) = ds" and "dropWhile is_digit (ds @ r) = r"
proof -
  from assms(1) have all: "\<forall>x \<in> set ds. is_digit x" by (simp add: list_all_iff)
  from assms(2) have r: "takeWhile is_digit r = [] \<and> dropWhile is_digit r = r"
    by (cases r) auto
  show "takeWhile is_digit (ds @ r) = ds"
    using all r by (simp add: takeWhile_append2)
  show "dropWhile is_digit (ds @ r) = r"
    using all r by (simp add: dropWhile_append2)
qed

lemma digit_char_zero: "d < 10 \<Longrightarrow> digit_char d = CHR ''0'' \<longleftrightarrow> d = 0"
proof -
  assume d: "d < 10"
  have "digit_char d = CHR ''0'' \<longleftrightarrow> (of_char (digit_char d) :: nat) = of_char (CHR ''0'')"
    by (simp only: of_char_eq_iff)
  also have "\<dots> \<longleftrightarrow> d = 0"
    using d by (simp add: digit_char_def)
  finally show ?thesis .
qed

lemma dec_nat_no_leading_zero: "0 < n \<Longrightarrow> hd (dec_nat n) \<noteq> CHR ''0''"
proof (induction n rule: dec_nat.induct)
  case (1 n)
  show ?case
  proof (cases "n < 10")
    case True
    with 1(2) show ?thesis
      by (subst dec_nat.simps) (simp add: digit_char_zero)
  next
    case False
    then have "0 < n div 10" by simp
    with 1(1) False have "hd (dec_nat (n div 10)) \<noteq> CHR ''0''" by simp
    moreover have "dec_nat (n div 10) \<noteq> []" using dec_nat_digits by blast
    ultimately show ?thesis
      using False by (subst dec_nat.simps) simp
  qed
qed

lemma dec_nat_zero: "dec_nat 0 = ''0''"
  by (subst dec_nat.simps) (simp add: digit_char_zero)

lemma dec_nat_leading: "1 < length (dec_nat n) \<Longrightarrow> hd (dec_nat n) \<noteq> CHR ''0''"
  by (cases "n = 0") (simp_all add: dec_nat_zero dec_nat_no_leading_zero)

lemma lex_number_dec_nat:
  assumes "ends_number r"
  shows "lex_number (dec_nat n @ r) = Some (int n, r)"
proof -
  from ends_number_no_digit [OF assms]
  have nd: "r = [] \<or> \<not> is_digit (hd r)"
    and ne: "r = [] \<or> (hd r \<noteq> CHR ''.'' \<and> hd r \<noteq> CHR ''e'' \<and> hd r \<noteq> CHR ''E'')" by auto
  have d: "dec_nat n \<noteq> []" "list_all is_digit (dec_nat n)" "nat_of_digits 0 (dec_nat n) = n"
    using dec_nat_digits [of n] by simp_all
  have h: "hd (dec_nat n @ r) \<noteq> CHR ''-''"
    using d(1) dec_nat_hd_digit [of n] is_digit_not_sign by (cases "dec_nat n") auto
  have t: "takeWhile is_digit (dec_nat n @ r) = dec_nat n" "dropWhile is_digit (dec_nat n @ r) = r"
    using takeWhile_digits [OF d(2) nd] by simp_all
  show ?thesis
    using d h ne dec_nat_leading [of n]
    by (auto simp: lex_number_def Let_def t)
qed

lemma lex_number_dec:
  assumes "ends_number r"
  shows "lex_number (dec i @ r) = Some (i, r)"
proof (cases "i < 0")
  case False
  then show ?thesis
    using lex_number_dec_nat [OF assms, of "nat i"] by (simp add: dec_def)
next
  case True
  let ?n = "nat (- i)"
  from ends_number_no_digit [OF assms]
  have nd: "r = [] \<or> \<not> is_digit (hd r)"
    and ne: "r = [] \<or> (hd r \<noteq> CHR ''.'' \<and> hd r \<noteq> CHR ''e'' \<and> hd r \<noteq> CHR ''E'')" by auto
  have d: "dec_nat ?n \<noteq> []" "list_all is_digit (dec_nat ?n)" "nat_of_digits 0 (dec_nat ?n) = ?n"
    using dec_nat_digits [of ?n] by simp_all
  have t: "takeWhile is_digit (dec_nat ?n @ r) = dec_nat ?n" "dropWhile is_digit (dec_nat ?n @ r) = r"
    using takeWhile_digits [OF d(2) nd] by simp_all
  show ?thesis
    using True d ne dec_nat_leading [of ?n]
    by (auto simp: lex_number_def Let_def t dec_def)
qed

lemma dec_first: "dec i \<noteq> [] \<and> (hd (dec i) = CHR ''-'' \<or> is_digit (hd (dec i)))"
  using dec_nat_digits [of "nat i"] dec_nat_hd_digit [of "nat i"]
  by (auto simp: dec_def)

lemma digit_or_minus_not_special:
  assumes "c = CHR ''-'' \<or> is_digit c"
  shows "punct c = None \<and> c \<noteq> CHR 0x22 \<and> \<not> is_ws c"
proof -
  have a: "c \<noteq> CHR ''[''" "c \<noteq> CHR '']''" "c \<noteq> CHR ''{''"
    using assms by (auto simp: is_digit_def)
  have b: "c \<noteq> CHR ''}''" "c \<noteq> CHR '',''" "c \<noteq> CHR '':''"
    using assms by (auto simp: is_digit_def)
  have c: "c \<noteq> CHR 0x22 \<and> \<not> is_ws c"
    using assms by (auto simp: is_digit_def is_ws_def)
  from a b have "punct c = None"
    by (simp add: punct_def)
  with c show ?thesis by simp
qed

lemma lex_token_dec:
  assumes "ends_number r"
  shows "lex_token (dec i @ r) = Some (TNum i, r)"
proof -
  obtain c cs where d: "dec i = c # cs" using dec_first [of i] by (cases "dec i") auto
  then have c: "c = CHR ''-'' \<or> is_digit c" using dec_first [of i] by simp
  have "lex_token (c # cs @ r) = map_option (\<lambda>(n, r). (TNum n, r)) (lex_number (c # cs @ r))"
    using c digit_or_minus_not_special [OF c] by (auto simp: lex_token_def)
  then show ?thesis
    using lex_number_dec [OF assms, of i] d by simp
qed

lemma strip_prefix_append: "strip_prefix p (p @ r) = Some r"
  by (induction p) simp_all

lemma lex_token_words:
  "lex_token (''null'' @ r) = Some (TNull, r)"
  "lex_token (''true'' @ r) = Some (TTrue, r)"
  "lex_token (''false'' @ r) = Some (TFalse, r)"
  by (simp_all add: lex_token_def punct_def is_digit_def lex_word_def)

lemma lex_token_punct:
  "lex_token (CHR ''['' # r) = Some (TLBracket, r)"
  "lex_token (CHR '']'' # r) = Some (TRBracket, r)"
  "lex_token (CHR ''{'' # r) = Some (TLBrace, r)"
  "lex_token (CHR ''}'' # r) = Some (TRBrace, r)"
  "lex_token (CHR '','' # r) = Some (TComma, r)"
  "lex_token (CHR '':'' # r) = Some (TColon, r)"
  by (simp_all add: lex_token_def punct_def)

text \<open>One step of the lexer on a text that starts with a token.\<close>

lemma lex_step:
  assumes "lex_token (c # cs) = Some (t, r)" and "\<not> is_ws c"
  shows "lex (c # cs) = map_option ((#) t) (lex r)"
  using assms by (subst lex.simps) simp

lemma lex_Nil: "lex [] = Some []"
  by (subst lex.simps) simp

subsection \<open>The tokens of an encoded value\<close>

lemma stringify_first:
  "JSON_stringify v \<noteq> [] \<and> \<not> is_ws (hd (JSON_stringify v))"
proof (cases v)
  case (JNum n)
  then show ?thesis
    using dec_first [of n] digit_or_minus_not_special [of "hd (dec n)"] by simp
qed (simp_all add: is_ws_def quote_def)

lemma map_option_append:
  "map_option ((@) xs) (map_option ((@) ys) m) = map_option ((@) (xs @ ys)) m"
  by (cases m) simp_all

lemma map_option_cons: "map_option ((#) t) m = map_option ((@) [t]) m"
  by (cases m) simp_all

lemma lex_punct:
  "lex (CHR ''['' # r) = map_option ((@) [TLBracket]) (lex r)"
  "lex (CHR '']'' # r) = map_option ((@) [TRBracket]) (lex r)"
  "lex (CHR ''{'' # r) = map_option ((@) [TLBrace]) (lex r)"
  "lex (CHR ''}'' # r) = map_option ((@) [TRBrace]) (lex r)"
  "lex (CHR '','' # r) = map_option ((@) [TComma]) (lex r)"
  "lex (CHR '':'' # r) = map_option ((@) [TColon]) (lex r)"
  by (simp_all add: lex_step lex_token_punct is_ws_def map_option_cons)

lemma lex_words:
  "lex (''null'' @ r) = map_option ((@) [TNull]) (lex r)"
  "lex (''true'' @ r) = map_option ((@) [TTrue]) (lex r)"
  "lex (''false'' @ r) = map_option ((@) [TFalse]) (lex r)"
  using lex_token_words [of r]
  by (simp_all add: lex_step is_ws_def map_option_cons)

lemma lex_quote: "lex (quote s @ r) = map_option ((@) [TStr s]) (lex r)"
proof -
  obtain cs where q: "quote s @ r = CHR 0x22 # cs"
    by (simp add: quote_def)
  have "lex_token (CHR 0x22 # cs) = Some (TStr s, r)"
    using lex_token_quote [of s r] q by simp
  then have "lex (CHR 0x22 # cs) = map_option ((#) (TStr s)) (lex r)"
    by (rule lex_step) (simp add: is_ws_def)
  with q show ?thesis by (simp add: map_option_cons)
qed

lemma lex_dec:
  assumes "ends_number r"
  shows "lex (dec n @ r) = map_option ((@) [TNum n]) (lex r)"
proof -
  obtain c cs where d: "dec n = c # cs" using dec_first [of n] by (cases "dec n") auto
  then have c: "c = CHR ''-'' \<or> is_digit c" using dec_first [of n] by simp
  have "lex_token (c # (cs @ r)) = Some (TNum n, r)"
    using lex_token_dec [OF assms, of n] d by simp
  then have "lex (c # (cs @ r)) = map_option ((#) (TNum n)) (lex r)"
    by (rule lex_step) (use digit_or_minus_not_special [OF c] in simp)
  with d show ?thesis by (simp add: map_option_cons)
qed

lemma lex_join:
  assumes el: "\<And>x r. x \<in> set xs \<Longrightarrow> ends_number r \<Longrightarrow>
                 lex (f x @ r) = map_option ((@) (g x)) (lex r)"
    and c: "c = CHR '']'' \<or> c = CHR ''}''"
  shows "lex (join '','' (map f xs) @ c # r) = map_option ((@) (sep_toks (map g xs))) (lex (c # r))"
  using el
proof (induction xs rule: induct_list012)
  case 1
  show ?case by (simp add: option.map_ident)
next
  case (2 x)
  have "ends_number (c # r)" using c by auto
  with 2 show ?case by simp
next
  case (3 x y zs)
  have "lex (join '','' (map f (x # y # zs)) @ c # r)
      = lex (f x @ CHR '','' # (join '','' (map f (y # zs)) @ c # r))"
    by simp
  also have "\<dots> = map_option ((@) (g x)) (lex (CHR '','' # (join '','' (map f (y # zs)) @ c # r)))"
    by (rule 3(3)) simp_all
  also have "\<dots> = map_option ((@) (g x @ [TComma])) (lex (join '','' (map f (y # zs)) @ c # r))"
    by (simp add: lex_punct map_option_append)
  also have "lex (join '','' (map f (y # zs)) @ c # r)
      = map_option ((@) (sep_toks (map g (y # zs)))) (lex (c # r))"
    by (rule 3(2)) (rule 3(3), simp_all)
  finally show ?case
    by (cases "lex (c # r)") simp_all
qed

lemma lex_stringify:
  "ends_number r \<Longrightarrow> lex (JSON_stringify v @ r) = map_option ((@) (toks v)) (lex r)"
proof (induction v arbitrary: r)
  case JNull
  show ?case using lex_words(1) [of r] by (cases "lex r") simp_all
next
  case (JBool b)
  show ?case using lex_words(2,3) [of r] by (cases "lex r") simp_all
next
  case (JNum n)
  then show ?case using lex_dec [of r n] by (cases "lex r") simp_all
next
  case (JStr s)
  show ?case using lex_quote [of s r] by (cases "lex r") simp_all
next
  case (JArr xs)
  have "lex (JSON_stringify (JArr xs) @ r)
      = lex (CHR ''['' # (join '','' (map JSON_stringify xs) @ CHR '']'' # r))"
    by simp
  also have "\<dots> = map_option ((@) [TLBracket]) (lex (join '','' (map JSON_stringify xs) @ CHR '']'' # r))"
    by (simp add: lex_punct)
  also have "lex (join '','' (map JSON_stringify xs) @ CHR '']'' # r)
      = map_option ((@) (sep_toks (map toks xs))) (lex (CHR '']'' # r))"
    by (rule lex_join) (simp_all add: JArr.IH)
  finally show ?case
    by (cases "lex r") (simp_all add: lex_punct)
next
  case (JObj ps)
  let ?f = "\<lambda>p. quote (fst p) @ '':'' @ JSON_stringify (snd p)"
  let ?g = "\<lambda>p. TStr (fst p) # TColon # toks (snd p)"
  have el: "lex (?f p @ r') = map_option ((@) (?g p)) (lex r')"
    if "p \<in> set ps" and "ends_number r'" for p r'
  proof -
    have "snd p \<in> Basic_BNFs.snds p"
      by (cases p) simp
    from JObj.IH [OF that(1) this that(2)]
    have "lex (JSON_stringify (snd p) @ r') = map_option ((@) (toks (snd p))) (lex r')" .
    then show ?thesis
      by (cases "lex r'") (simp_all add: lex_quote lex_punct)
  qed
  have "lex (JSON_stringify (JObj ps) @ r)
      = lex (CHR ''{'' # (join '','' (map ?f ps) @ CHR ''}'' # r))"
    by simp
  also have "\<dots> = map_option ((@) [TLBrace]) (lex (join '','' (map ?f ps) @ CHR ''}'' # r))"
    by (simp add: lex_punct)
  also have "lex (join '','' (map ?f ps) @ CHR ''}'' # r)
      = map_option ((@) (sep_toks (map ?g ps))) (lex (CHR ''}'' # r))"
  proof (rule lex_join)
    show "lex (?f x @ r') = map_option ((@) (?g x)) (lex r')"
      if "x \<in> set ps" and "ends_number r'" for x r'
      using that by (rule el)
    show "CHR ''}'' = CHR '']'' \<or> CHR ''}'' = CHR ''}''"
      by simp
  qed
  finally show ?case
    by (cases "lex r") (simp_all add: lex_punct)
qed

lemma lex_JSON_stringify: "lex (JSON_stringify v) = Some (toks v)"
  using lex_stringify [of "[]" v] by (simp add: lex_Nil ends_number_def)

subsection \<open>The structure of an encoded value\<close>

lemma toks_first:
  "\<exists>t rest. toks v = t # rest \<and> t \<noteq> TRBracket \<and> t \<noteq> TRBrace \<and> t \<noteq> TComma \<and> t \<noteq> TColon"
  by (cases v) simp_all

lemma run_PFirst:
  assumes "t \<noteq> TRBracket"
  shows "run (PFirst stk) (t # ts) = run (PValue (FArr [] # stk)) (t # ts)"
  using assms by simp

lemma run_elems:
  assumes el: "\<And>x stk ts. x \<in> set xs \<Longrightarrow> run (PValue stk) (toks x @ ts) = run (reduce (decoded x) stk) ts"
    and ne: "xs \<noteq> []"
  shows "run (PValue (FArr acc # stk)) (sep_toks (map toks xs) @ TRBracket # ts)
       = run (reduce (JArr (acc @ map decoded xs)) stk) ts"
  using el ne
proof (induction xs arbitrary: acc rule: induct_list012)
  case 1
  then show ?case by simp
next
  case (2 x)
  have "run (PValue (FArr acc # stk)) (toks x @ TRBracket # ts)
      = run (reduce (decoded x) (FArr acc # stk)) (TRBracket # ts)"
    by (rule 2(1)) simp
  then show ?case by simp
next
  case (3 x y zs)
  have "run (PValue (FArr acc # stk)) (sep_toks (map toks (x # y # zs)) @ TRBracket # ts)
      = run (PValue (FArr acc # stk)) (toks x @ TComma # (sep_toks (map toks (y # zs)) @ TRBracket # ts))"
    by simp
  also have "\<dots> = run (reduce (decoded x) (FArr acc # stk))
                      (TComma # (sep_toks (map toks (y # zs)) @ TRBracket # ts))"
    by (rule 3(3)) simp
  also have "\<dots> = run (PValue (FArr (acc @ [decoded x]) # stk))
                      (sep_toks (map toks (y # zs)) @ TRBracket # ts)"
    by simp
  also have "\<dots> = run (reduce (JArr ((acc @ [decoded x]) @ map decoded (y # zs))) stk) ts"
    by (rule 3(2)) (rule 3(3), simp_all)
  finally show ?case by simp
qed

lemma run_members:
  assumes el: "\<And>p stk ts. p \<in> set ps \<Longrightarrow>
                  run (PValue stk) (toks (snd p) @ ts) = run (reduce (decoded (snd p)) stk) ts"
    and ne: "ps \<noteq> []"
  shows "run (PKey acc stk)
           (sep_toks (map (\<lambda>p. TStr (fst p) # TColon # toks (snd p)) ps) @ TRBrace # ts)
       = run (reduce (JObj (fold (\<lambda>p a. set_prop a (fst p) (decoded (snd p))) ps acc)) stk) ts"
  using el ne
proof (induction ps arbitrary: acc rule: induct_list012)
  case 1
  then show ?case by simp
next
  case (2 p)
  have "run (PValue (FObj acc (fst p) # stk)) (toks (snd p) @ TRBrace # ts)
      = run (reduce (decoded (snd p)) (FObj acc (fst p) # stk)) (TRBrace # ts)"
    by (rule 2(1)) simp
  then show ?case by simp
next
  case (3 p q rs)
  let ?g = "\<lambda>p. TStr (fst p) # TColon # toks (snd p)"
  have "run (PKey acc stk) (sep_toks (map ?g (p # q # rs)) @ TRBrace # ts)
      = run (PValue (FObj acc (fst p) # stk))
          (toks (snd p) @ TComma # (sep_toks (map ?g (q # rs)) @ TRBrace # ts))"
    by simp
  also have "\<dots> = run (reduce (decoded (snd p)) (FObj acc (fst p) # stk))
                      (TComma # (sep_toks (map ?g (q # rs)) @ TRBrace # ts))"
    by (rule 3(3)) simp
  also have "\<dots> = run (PKey (set_prop acc (fst p) (decoded (snd p))) stk)
                      (sep_toks (map ?g (q # rs)) @ TRBrace # ts)"
    by simp
  also have "\<dots> = run (reduce (JObj (fold (\<lambda>p a. set_prop a (fst p) (decoded (snd p))) (q # rs)
                                       (set_prop acc (fst p) (decoded (snd p))))) stk) ts"
    by (rule 3(2)) (rule 3(3), simp_all)
  finally show ?case by simp
qed

lemma run_toks:
  "run (PValue stk) (toks v @ ts) = run (reduce (decoded v) stk) ts"
proof (induction v arbitrary: stk ts)
  case (JArr xs)
  show ?case
  proof (cases xs)
    case Nil
    then show ?thesis by simp
  next
    case (Cons x xs')
    obtain t rest where t: "toks x = t # rest" "t \<noteq> TRBracket"
      using toks_first [of x] by blast
    obtain more where m: "sep_toks (map toks xs) = t # more"
      using Cons t(1) by (cases xs') simp_all
    have "run (PValue stk) (toks (JArr xs) @ ts)
        = run (PFirst stk) (sep_toks (map toks xs) @ TRBracket # ts)"
      by simp
    also have "\<dots> = run (PValue (FArr [] # stk)) (sep_toks (map toks xs) @ TRBracket # ts)"
      unfolding m using run_PFirst [OF t(2)] by simp
    also have "\<dots> = run (reduce (JArr ([] @ map decoded xs)) stk) ts"
      by (rule run_elems) (simp_all add: JArr.IH Cons)
    finally show ?thesis by simp
  qed
next
  case (JObj ps)
  let ?g = "\<lambda>p. TStr (fst p) # TColon # toks (snd p)"
  show ?case
  proof (cases ps)
    case Nil
    then show ?thesis by simp
  next
    case (Cons p ps')
    obtain more where m: "sep_toks (map ?g ps) = TStr (fst p) # more"
      using Cons by (cases ps') simp_all
    have el: "run (PValue stk') (toks (snd q) @ ts') = run (reduce (decoded (snd q)) stk') ts'"
      if "q \<in> set ps" for q stk' ts'
    proof -
      have "snd q \<in> Basic_BNFs.snds q" by (cases q) simp
      from JObj.IH [OF that this] show ?thesis .
    qed
    have "run (PValue stk) (toks (JObj ps) @ ts)
        = run (PFirstKey stk) (sep_toks (map ?g ps) @ TRBrace # ts)"
      by simp
    also have "\<dots> = run (PKey [] stk) (sep_toks (map ?g ps) @ TRBrace # ts)"
      unfolding m by simp
    also have "\<dots> = run (reduce (JObj (fold (\<lambda>p a. set_prop a (fst p) (decoded (snd p))) ps [])) stk) ts"
    proof (rule run_members)
      show "run (PValue stk') (toks (snd q) @ ts') = run (reduce (decoded (snd q)) stk') ts'"
        if "q \<in> set ps" for q stk' ts'
        using that by (rule el)
      show "ps \<noteq> []" using Cons by simp
    qed
    finally show ?thesis by simp
  qed
qed simp_all

text \<open>Decoding an encoded value succeeds, with the value \<open>decoded v\<close>.\<close>

lemma JSON_parse_stringify: "JSON_parse (JSON_stringify v) = Some (decoded v)"
proof -
  have "run (PValue []) (toks v) = Some (PDone (decoded v))"
    using run_toks [of "[]" v "[]"] by simp
  then show ?thesis
    by (simp add: JSON_parse_def lex_JSON_stringify)
qed

lemma decoded_strings: "decoded (JArr (map JStr ss)) = JArr (map JStr ss)"
  by (induction ss) simp_all

section \<open>Properties of the gateway\<close>

lemma gateway_transport_failure:
  assumes "backend us os rt (forwarded rt rq) = Inl m"
  shows "code (gateway_handle us os rt rq) = 500"
  using assms by (cases rt) (simp_all add: axios_def failure_def status_or_500_def)

lemma gateway_routed:
  assumes "gateway_route rq = Some rt"
  shows "gateway cfg now us os rq = gateway_handle us os rt rq"
proof -
  have "\<not> (meth rq = GET \<and> route_path (url_path rq) = [''health''])"
    using assms by auto
  with assms show ?thesis
    by (auto simp add: gateway_def simp del: gateway_route.simps)
qed

text \<open>
  Claim C3.  A request to one of the ten proxied routes makes the gateway send one request to
  one backend.  When the backend answers that request with an HTTP error (a status of 400
  or more), the gateway passes the status on for \<open>GET /api/users/:id\<close>, \<open>GET /api/orders/:id\<close>
  and \<open>GET /api/orders/:id/with-user\<close>, and answers 500 for each of its other routes: the two
  list reads and every \<open>POST\<close>, \<open>PUT\<close> and \<open>DELETE\<close>.  Nothing is assumed of the backends
  but the answer to that one request.
\<close>

theorem gateway_upstream_error_status:
  assumes route: "gateway_route rq = Some rt"
    and answer: "backend us os rt (forwarded rt rq) = Inr r"
    and bad: "400 \<le> code r"
  shows "code (gateway cfg now us os rq) =
     (case rt of
        GetUsersId i \<Rightarrow> code r
      | GetOrdersId i \<Rightarrow> code r
      | GetOrdersIdWithUser i \<Rightarrow> code r
      | _ \<Rightarrow> 500)"
proof -
  have "code (gateway_handle us os rt rq) =
     (case rt of
        GetUsersId i \<Rightarrow> code r
      | GetOrdersId i \<Rightarrow> code r
      | GetOrdersIdWithUser i \<Rightarrow> code r
      | _ \<Rightarrow> 500)"
    using answer bad
    by (cases rt) (auto simp add: axios_def failure_def status_or_500_def)
  with gateway_routed [OF route] show ?thesis
    by simp
qed

text \<open>The two backends of the examples: the User Service and the Order Service on their
  seeded tables.\<close>

theorem gateway_upstream_error_status_witness:
  "code (gateway default_config ''2024-01-02 00:00:00''
           (user_service_at ''2024-01-02 00:00:00'' no_fault sample_users)
           (order_service_at (user_service_at ''2024-01-02 00:00:00'' no_fault sample_users)
              ''2024-01-02 00:00:00'' no_fault sample_orders)
           \<lparr>meth = GET, url_path = [''api'', ''orders'', ''9'', ''with-user''], query = [], body = []\<rparr>)
     = 404
   \<and> code (gateway default_config ''2024-01-02 00:00:00''
           (user_service_at ''2024-01-02 00:00:00'' no_fault sample_users)
           (order_service_at (user_service_at ''2024-01-02 00:00:00'' no_fault sample_users)
              ''2024-01-02 00:00:00'' no_fault sample_orders)
           \<lparr>meth = PUT, url_path = [''api'', ''users'', ''9''], query = [],
              body = [(''name'', JStr ''Budi'')]\<rparr>)
     = 500"
proof -
  let ?us = "user_service_at ''2024-01-02 00:00:00'' no_fault sample_users"
  let ?os = "order_service_at ?us ''2024-01-02 00:00:00'' no_fault sample_orders"
  let ?get = "\<lparr>meth = GET, url_path = [''api'', ''orders'', ''9'', ''with-user''], query = [], body = []\<rparr>"
  let ?put = "\<lparr>meth = PUT, url_path = [''api'', ''users'', ''9''], query = [],
                body = [(''name'', JStr ''Budi'')]\<rparr>"
  have g1: "gateway_route ?get = Some (GetOrdersIdWithUser ''9'')"
    by code_simp
  have g2: "backend ?us ?os (GetOrdersIdWithUser ''9'') (forwarded (GetOrdersIdWithUser ''9'') ?get)
      = Inr (failure_message 404 ''Order tidak ditemukan'')"
    by code_simp
  have p1: "gateway_route ?put = Some (PutUsersId ''9'')"
    by code_simp
  have p2: "backend ?us ?os (PutUsersId ''9'') (forwarded (PutUsersId ''9'') ?put)
      = Inr (failure_message 404 ''User tidak ditemukan'')"
    by code_simp
  have bad: "400 \<le> code (failure_message 404 m)" for m
    by (simp add: failure_message_def)
  have a: "code (gateway default_config ''2024-01-02 00:00:00'' ?us ?os ?get) = 404"
    using gateway_upstream_error_status [OF g1 g2 bad, of default_config "''2024-01-02 00:00:00''"]
    by (simp add: failure_message_def)
  have b: "code (gateway default_config ''2024-01-02 00:00:00'' ?us ?os ?put) = 500"
    using gateway_upstream_error_status [OF p1 p2 bad, of default_config "''2024-01-02 00:00:00''"]
    by simp
  show ?thesis
    by (rule conjI [OF a b])
qed

section \<open>Properties of the User Service\<close>






section \<open>Properties of the Order Service\<close>

text \<open>The id of a request is a text, and the store finds the row whose key the engine reads
  the text as: with the rule of the examples, \<open>1.0\<close>, \<open>1e0\<close> and \<open>1\<close> between blanks all
  name order 1, and \<open>1.5\<close> and \<open>7\<close> name no order of the seeded table.\<close>

lemma select_orders_id_numeric_text:
  "map (\<lambda>t. map_option oid (select_orders_id decimal_literal sample_orders (SText t)))
     [''1'', ''1.0'', ''1e0'', '' 1'', ''1 '', ''+1'', ''1.5'', ''7'', ''abc'']
   = [Some 1, Some 1, Some 1, Some 1, Some 1, Some 1, None, None, None]"
  by code_simp

text \<open>
  Claim C2.  When the store holds no order for the requested id (the statement of the handler
  selects no row), \<open>GET /orders/:id/with-user\<close> answers 404 after its one statement and sends
  nothing to the User Service.  Whenever the handler does send a request, the store read has
  run before it and has found the order.  This holds for every rule by which the engine reads
  the id.
\<close>

theorem with_user_absent_order_no_call:
  "(fault eng 0 = None \<and> select_orders_id (number_of_text eng) db (SText i) = None \<longrightarrow>
      get_orders_id_with_user us eng db i =
        ([DbGet i], Inr (failure_message 404 ''Order tidak ditemukan'')))
   \<and> (\<forall>rq. HttpGet rq \<in> set (fst (get_orders_id_with_user us eng db i)) \<longrightarrow>
         fault eng 0 = None \<and> (\<exists>row. select_orders_id (number_of_text eng) db (SText i) = Some row)
         \<and> fst (get_orders_id_with_user us eng db i) = [DbGet i, HttpGet rq])"
  by (auto simp: get_orders_id_with_user_def with_engine_def
           split: option.splits sum.splits)

theorem with_user_absent_order_no_call_witness:
  "get_orders_id_with_user unreachable no_fault sample_orders ''7'' =
     ([DbGet ''7''], Inr (failure_message 404 ''Order tidak ditemukan''))
   \<and> fst (get_orders_id_with_user unreachable no_fault sample_orders ''1.0'') =
       [DbGet ''1.0'', HttpGet (upstream_get [''users'', ''1''] [])]"
proof -
  note absent = with_user_absent_order_no_call
    [of no_fault sample_orders "''7''" unreachable, THEN conjunct1, THEN mp]
  note present = with_user_absent_order_no_call
    [of no_fault sample_orders "''1.0''" unreachable, THEN conjunct2, THEN spec, THEN mp,
     THEN conjunct2, THEN conjunct2]
  have a: "get_orders_id_with_user unreachable no_fault sample_orders ''7'' =
     ([DbGet ''7''], Inr (failure_message 404 ''Order tidak ditemukan''))"
    by (rule absent) code_simp
  have b: "fst (get_orders_id_with_user unreachable no_fault sample_orders ''1.0'') =
       [DbGet ''1.0'', HttpGet (upstream_get [''users'', ''1''] [])]"
    by (rule present) code_simp
  show ?thesis
    by (rule conjI [OF a b])
qed

text \<open>
  Claim C9.  \<open>PUT /orders/:id\<close> leaves a column of every stored row as it was when the body
  does not have the field of that column, and a body with none of \<open>status\<close>,
  \<open>restaurantName\<close>, \<open>items\<close>, \<open>totalPrice\<close> is answered 400 with the store unchanged, whatever
  the state of the engine: no statement is run.
\<close>

theorem put_orders_frame:
  "(get_prop b ''status'' = None \<longrightarrow>
      map status (orders (fst (put_orders eng db i b))) = map status (orders db))
   \<and> (get_prop b ''restaurantName'' = None \<longrightarrow>
      map restaurant_name (orders (fst (put_orders eng db i b))) = map restaurant_name (orders db))
   \<and> (get_prop b ''items'' = None \<longrightarrow>
      map items (orders (fst (put_orders eng db i b))) = map items (orders db))
   \<and> (get_prop b ''totalPrice'' = None \<longrightarrow>
      map total_price (orders (fst (put_orders eng db i b))) = map total_price (orders db))
   \<and> (get_prop b ''status'' = None \<and> get_prop b ''restaurantName'' = None
        \<and> get_prop b ''items'' = None \<and> get_prop b ''totalPrice'' = None \<longrightarrow>
      put_orders eng db i b = (db, Inr (failure_message 400 ''Tidak ada field yang diupdate'')))"
proof (intro conjI impI)
  assume "get_prop b ''status'' = None"
  then have "''status'' \<notin> fst ` set (updateFields b)"
    by (simp add: updateFields_keys)
  then show "map status (orders (fst (put_orders eng db i b))) = map status (orders db)"
    using put_orders_db [of eng db i b] by (auto simp: fold_assign_frame)
next
  assume "get_prop b ''restaurantName'' = None"
  then have "''restaurant_name'' \<notin> fst ` set (updateFields b)"
    by (simp add: updateFields_keys)
  then show "map restaurant_name (orders (fst (put_orders eng db i b))) = map restaurant_name (orders db)"
    using put_orders_db [of eng db i b] by (auto simp: fold_assign_frame)
next
  assume "get_prop b ''items'' = None"
  then have "''items'' \<notin> fst ` set (updateFields b)"
    by (simp add: updateFields_keys)
  then show "map items (orders (fst (put_orders eng db i b))) = map items (orders db)"
    using put_orders_db [of eng db i b] by (auto simp: fold_assign_frame)
next
  assume "get_prop b ''totalPrice'' = None"
  then have "''total_price'' \<notin> fst ` set (updateFields b)"
    by (simp add: updateFields_keys)
  then show "map total_price (orders (fst (put_orders eng db i b))) = map total_price (orders db)"
    using put_orders_db [of eng db i b] by (auto simp: fold_assign_frame)
next
  assume "get_prop b ''status'' = None \<and> get_prop b ''restaurantName'' = None
        \<and> get_prop b ''items'' = None \<and> get_prop b ''totalPrice'' = None"
  then have "updateFields b = []"
    by (simp add: updateFields_empty)
  then show "put_orders eng db i b = (db, Inr (failure_message 400 ''Tidak ada field yang diupdate''))"
    by (simp add: put_orders_def)
qed

theorem put_orders_frame_witness:
  "map restaurant_name (orders (fst (put_orders no_fault (seeded_orders decimal_literal ''2024-01-01'') ''1''
        [(''status'', JStr ''delivered'')]))) = map restaurant_name (orders (seeded_orders decimal_literal ''2024-01-01''))
   \<and> map items (orders (fst (put_orders no_fault (seeded_orders decimal_literal ''2024-01-01'') ''1''
        [(''status'', JStr ''delivered'')]))) = map items (orders (seeded_orders decimal_literal ''2024-01-01''))
   \<and> map total_price (orders (fst (put_orders no_fault (seeded_orders decimal_literal ''2024-01-01'') ''1''
        [(''status'', JStr ''delivered'')]))) = map total_price (orders (seeded_orders decimal_literal ''2024-01-01''))
   \<and> map status (orders (fst (put_orders no_fault (seeded_orders decimal_literal ''2024-01-01'') ''1''
        [(''userId'', JNum 2)]))) = map status (orders (seeded_orders decimal_literal ''2024-01-01''))
   \<and> put_orders no_fault (seeded_orders decimal_literal ''2024-01-01'') ''1'' [(''userId'', JNum 2)] =
        (seeded_orders decimal_literal ''2024-01-01'', Inr (failure_message 400 ''Tidak ada field yang diupdate''))"
proof -
  note one = put_orders_frame
    [of "[(''status'', JStr ''delivered'')]" no_fault "seeded_orders decimal_literal ''2024-01-01''" "''1''"]
  note none = put_orders_frame
    [of "[(''userId'', JNum 2)]" no_fault "seeded_orders decimal_literal ''2024-01-01''" "''1''"]
  have a: "map restaurant_name (orders (fst (put_orders no_fault (seeded_orders decimal_literal ''2024-01-01'') ''1''
        [(''status'', JStr ''delivered'')]))) = map restaurant_name (orders (seeded_orders decimal_literal ''2024-01-01''))"
    by (rule one [THEN conjunct2, THEN conjunct1, THEN mp]) (simp add: get_prop_def)
  have b: "map items (orders (fst (put_orders no_fault (seeded_orders decimal_literal ''2024-01-01'') ''1''
        [(''status'', JStr ''delivered'')]))) = map items (orders (seeded_orders decimal_literal ''2024-01-01''))"
    by (rule one [THEN conjunct2, THEN conjunct2, THEN conjunct1, THEN mp]) (simp add: get_prop_def)
  have c: "map total_price (orders (fst (put_orders no_fault (seeded_orders decimal_literal ''2024-01-01'') ''1''
        [(''status'', JStr ''delivered'')]))) = map total_price (orders (seeded_orders decimal_literal ''2024-01-01''))"
    by (rule one [THEN conjunct2, THEN conjunct2, THEN conjunct2, THEN conjunct1, THEN mp])
       (simp add: get_prop_def)
  have d: "map status (orders (fst (put_orders no_fault (seeded_orders decimal_literal ''2024-01-01'') ''1''
        [(''userId'', JNum 2)]))) = map status (orders (seeded_orders decimal_literal ''2024-01-01''))"
    by (rule none [THEN conjunct1, THEN mp]) (simp add: get_prop_def)
  have e: "put_orders no_fault (seeded_orders decimal_literal ''2024-01-01'') ''1'' [(''userId'', JNum 2)] =
        (seeded_orders decimal_literal ''2024-01-01'', Inr (failure_message 400 ''Tidak ada field yang diupdate''))"
    by (rule none [THEN conjunct2, THEN conjunct2, THEN conjunct2, THEN conjunct2, THEN mp])
       (simp add: get_prop_def)
  show ?thesis
    by (rule conjI [OF a conjI [OF b conjI [OF c conjI [OF d e]]]])
qed

lemma get_prop_without:
  "get_prop (filter (\<lambda>p. fst p \<noteq> k) b) k' = (if k' = k then None else get_prop b k')"
  by (induction b) (auto simp: get_prop_def)

lemma updateFields_falsy:
  assumes "k \<in> {''status'', ''restaurantName'', ''items'', ''totalPrice''}"
    and "\<not> truthy (get_prop b k)"
  shows "updateFields (filter (\<lambda>p. fst p \<noteq> k) b) = updateFields b"
  using assms by (auto simp: updateFields_def Let_def get_prop_without)

text \<open>
  Claim C10, as amended.  For \<open>PUT /orders/:id\<close> a recognised field whose value is falsy
  (\<open>null\<close>, \<open>false\<close>, the number 0, the empty string) has the effect of a field that is not
  in the body; a body whose recognised fields are all falsy is answered 400 with the store
  unchanged; and a body with \<open>totalPrice\<close> the number 0 changes no stored price.
\<close>

theorem put_orders_falsy_as_absent:
  "(k \<in> {''status'', ''restaurantName'', ''items'', ''totalPrice''} \<and> \<not> truthy (get_prop b k) \<longrightarrow>
      put_orders eng db i b = put_orders eng db i (filter (\<lambda>p. fst p \<noteq> k) b))
   \<and> (\<not> truthy (get_prop b ''status'') \<and> \<not> truthy (get_prop b ''restaurantName'')
        \<and> \<not> truthy (get_prop b ''items'') \<and> \<not> truthy (get_prop b ''totalPrice'') \<longrightarrow>
      put_orders eng db i b = (db, Inr (failure_message 400 ''Tidak ada field yang diupdate'')))
   \<and> (get_prop b ''totalPrice'' = Some (JNum 0) \<longrightarrow>
      map total_price (orders (fst (put_orders eng db i b))) = map total_price (orders db))"
proof -
  have A: "k \<in> {''status'', ''restaurantName'', ''items'', ''totalPrice''} \<and> \<not> truthy (get_prop b k) \<longrightarrow>
      put_orders eng db i b = put_orders eng db i (filter (\<lambda>p. fst p \<noteq> k) b)"
  proof (rule impI)
    assume "k \<in> {''status'', ''restaurantName'', ''items'', ''totalPrice''} \<and> \<not> truthy (get_prop b k)"
    then have "updateFields (filter (\<lambda>p. fst p \<noteq> k) b) = updateFields b"
      using updateFields_falsy [of k b] by blast
    then show "put_orders eng db i b = put_orders eng db i (filter (\<lambda>p. fst p \<noteq> k) b)"
      by (simp add: put_orders_def)
  qed
  have B: "\<not> truthy (get_prop b ''status'') \<and> \<not> truthy (get_prop b ''restaurantName'')
        \<and> \<not> truthy (get_prop b ''items'') \<and> \<not> truthy (get_prop b ''totalPrice'') \<longrightarrow>
      put_orders eng db i b = (db, Inr (failure_message 400 ''Tidak ada field yang diupdate''))"
    by (simp add: put_orders_def updateFields_empty)
  have C: "get_prop b ''totalPrice'' = Some (JNum 0) \<longrightarrow>
      map total_price (orders (fst (put_orders eng db i b))) = map total_price (orders db)"
  proof (rule impI)
    assume "get_prop b ''totalPrice'' = Some (JNum 0)"
    then have "''total_price'' \<notin> fst ` set (updateFields b)"
      by (simp add: updateFields_keys)
    then show "map total_price (orders (fst (put_orders eng db i b))) = map total_price (orders db)"
      using put_orders_db [of eng db i b] by (auto simp: fold_assign_frame)
  qed
  show ?thesis
    by (rule conjI [OF A conjI [OF B C]])
qed

theorem put_orders_falsy_as_absent_witness:
  "put_orders no_fault (seeded_orders decimal_literal ''2024-01-01'') ''1'' [(''totalPrice'', JNum 0), (''status'', JStr ''cancelled'')]
     = put_orders no_fault (seeded_orders decimal_literal ''2024-01-01'') ''1''
         (filter (\<lambda>p. fst p \<noteq> ''totalPrice'') [(''totalPrice'', JNum 0), (''status'', JStr ''cancelled'')])
   \<and> map total_price (orders (fst (put_orders no_fault (seeded_orders decimal_literal ''2024-01-01'') ''1''
         [(''totalPrice'', JNum 0), (''status'', JStr ''cancelled'')])))
       = map total_price (orders (seeded_orders decimal_literal ''2024-01-01''))
   \<and> put_orders no_fault (seeded_orders decimal_literal ''2024-01-01'') ''1'' [(''totalPrice'', JNum 0), (''status'', JStr [])]
       = (seeded_orders decimal_literal ''2024-01-01'', Inr (failure_message 400 ''Tidak ada field yang diupdate''))"
proof -
  note one = put_orders_falsy_as_absent
    [of "''totalPrice''" "[(''totalPrice'', JNum 0), (''status'', JStr ''cancelled'')]"
        no_fault "seeded_orders decimal_literal ''2024-01-01''" "''1''"]
  note all = put_orders_falsy_as_absent
    [of "''totalPrice''" "[(''totalPrice'', JNum 0), (''status'', JStr [])]"
        no_fault "seeded_orders decimal_literal ''2024-01-01''" "''1''"]
  have a: "put_orders no_fault (seeded_orders decimal_literal ''2024-01-01'') ''1'' [(''totalPrice'', JNum 0), (''status'', JStr ''cancelled'')]
     = put_orders no_fault (seeded_orders decimal_literal ''2024-01-01'') ''1''
         (filter (\<lambda>p. fst p \<noteq> ''totalPrice'') [(''totalPrice'', JNum 0), (''status'', JStr ''cancelled'')])"
    by (rule one [THEN conjunct1, THEN mp]) (simp add: get_prop_def)
  have b: "map total_price (orders (fst (put_orders no_fault (seeded_orders decimal_literal ''2024-01-01'') ''1''
         [(''totalPrice'', JNum 0), (''status'', JStr ''cancelled'')])))
       = map total_price (orders (seeded_orders decimal_literal ''2024-01-01''))"
    by (rule one [THEN conjunct2, THEN conjunct2, THEN mp]) (simp add: get_prop_def)
  have c: "put_orders no_fault (seeded_orders decimal_literal ''2024-01-01'') ''1'' [(''totalPrice'', JNum 0), (''status'', JStr [])]
       = (seeded_orders decimal_literal ''2024-01-01'', Inr (failure_message 400 ''Tidak ada field yang diupdate''))"
    by (rule all [THEN conjunct2, THEN conjunct1, THEN mp]) (simp add: get_prop_def)
  show ?thesis
    by (rule conjI [OF a conjI [OF b c]])
qed

text \<open>The claim as first stated also says that the stored price can never become 0 through
  this endpoint.  The text \<open>"0"\<close> is truthy, is sent to the store, and the \<open>INTEGER\<close>
  affinity of the column turns it into the number 0.\<close>

theorem put_orders_text_zero_counterexample:
  "truthy (get_prop [(''totalPrice'', JStr ''0'')] ''totalPrice'')
   \<and> map total_price (orders (seeded_orders decimal_literal ''2024-01-01'')) = [SInt 45000, SInt 35000]
   \<and> map total_price (orders (fst (put_orders no_fault (seeded_orders decimal_literal ''2024-01-01'') ''1''
        [(''totalPrice'', JStr ''0'')]))) = [SInt 0, SInt 35000]"
  by code_simp

section \<open>Creating and reading back an order\<close>

lemma get_prop_set_prop:
  "get_prop (set_prop obj k v) k' = (if k' = k then Some v else get_prop obj k')"
  by (induction obj k v rule: set_prop.induct) (auto simp: get_prop_def)

text \<open>The object that \<open>parseOrderRow\<close> returns, property by property.\<close>

lemma parseOrderRow_Inr:
  "parseOrderRow row = Inr order \<longleftrightarrow>
     (\<exists>its. JSON_parse (js_to_string (js_of_sql (items row))) = Some its \<and>
        order = [(''id'', JNum (oid row)), (''user_id'', js_of_sql (user_id row)),
                 (''restaurant_name'', js_of_sql (restaurant_name row)), (''items'', its),
                 (''total_price'', js_of_sql (total_price row)), (''status'', js_of_sql (status row)),
                 (''created_at'', js_of_sql (created_at row)),
                 (''totalPrice'', js_of_sql (total_price row)), (''userId'', js_of_sql (user_id row)),
                 (''restaurantName'', js_of_sql (restaurant_name row)),
                 (''createdAt'', js_of_sql (created_at row))])"
  by (auto simp: parseOrderRow_def order_fields_def split: option.splits)

lemma parseOrderRow_encoded:
  assumes "items row = SText (JSON_stringify v)"
  shows "\<exists>order. parseOrderRow row = Inr order \<and> get_prop order ''items'' = Some (decoded v)"
  using assms by (simp add: parseOrderRow_Inr JSON_parse_stringify get_prop_def)

lemma bind_param_truthy: "truthy v \<Longrightarrow> bind_param v \<noteq> SNull"
  by (cases v rule: bind_param.cases) simp_all

lemma insert_orders_ok:
  assumes "u \<noteq> SNull" "n \<noteq> SNull" "it \<noteq> SNull" "t \<noteq> SNull"
  shows "\<exists>db' i. insert_orders (number_of_text eng) now db u n it t s = Inr (db', i)"
proof -
  have "not_null_violation ''orders''
          [(''user_id'', affinity_integer (number_of_text eng) u), (''restaurant_name'', affinity_text n),
           (''items'', affinity_text it), (''total_price'', affinity_integer (number_of_text eng) t)] = None"
    using assms by (simp add: not_null_violation_None)
  then show ?thesis
    by (simp add: insert_orders_def Let_def)
qed

text \<open>What \<open>POST /orders\<close> does with a body whose four fields are truthy.\<close>

lemma post_orders_valid:
  assumes t: "truthy (get_prop b ''userId'')" "truthy (get_prop b ''restaurantName'')"
    "truthy (get_prop b ''items'')" "truthy (get_prop b ''totalPrice'')"
  obtains v db' i row order where
    "get_prop b ''items'' = Some v"
    "insert_orders (number_of_text eng) now db (bind_param (get_prop b ''userId'')) (bind_param (get_prop b ''restaurantName''))
       (SText (JSON_stringify v)) (bind_param (get_prop b ''totalPrice'')) (SText ''pending'')
       = Inr (db', i)"
    "row = last (orders db')" "oid row = i" "status row = SText ''pending''"
    "items row = SText (JSON_stringify v)"
    "parseOrderRow row = Inr order"
    "post_orders now eng db b =
       (case fault eng 0 of
          Some e \<Rightarrow> (db, Inr (failure 500 ''Error creating order'' e))
        | None \<Rightarrow>
            (case fault eng 1 of
               Some e \<Rightarrow> (db', Inr (failure 500 ''Error fetching created order'' e))
             | None \<Rightarrow> (db', Inr \<lparr>code = 201, payload = success_data (Some (JObj order))\<rparr>)))"
proof -
  from t(3) obtain v where v: "get_prop b ''items'' = Some v"
    by (cases "get_prop b ''items''") simp_all
  let ?u = "bind_param (get_prop b ''userId'')" and ?n = "bind_param (get_prop b ''restaurantName'')"
  let ?t = "bind_param (get_prop b ''totalPrice'')"
  obtain db' i where ins: "insert_orders (number_of_text eng) now db ?u ?n (SText (JSON_stringify v)) ?t
      (SText ''pending'') = Inr (db', i)"
    using insert_orders_ok [where u = ?u and n = ?n and it = "SText (JSON_stringify v)" and t = ?t
        and now = now and db = db and s = "SText ''pending''" and eng = eng]
      bind_param_truthy t by auto
  define row where "row = last (orders db')"
  from insert_orders_Inr [OF ins] have row: "status row = SText ''pending''" "items row = SText (JSON_stringify v)"
    by (simp_all add: row_def)
  from select_inserted_order [OF ins] have sel: "select_orders_id (number_of_text eng) db' (SInt i) = Some row" "oid row = i"
    by (simp_all add: row_def)
  from parseOrderRow_encoded [OF row(2)] obtain order where p: "parseOrderRow row = Inr order"
    by blast
  have "post_orders now eng db b =
       (case fault eng 0 of
          Some e \<Rightarrow> (db, Inr (failure 500 ''Error creating order'' e))
        | None \<Rightarrow>
            (case fault eng 1 of
               Some e \<Rightarrow> (db', Inr (failure 500 ''Error fetching created order'' e))
             | None \<Rightarrow> (db', Inr \<lparr>code = 201, payload = success_data (Some (JObj order))\<rparr>)))"
    using t v ins sel p
    by (simp add: post_orders_def Let_def with_engine_def split: option.splits)
  with v ins row sel p show ?thesis
    by (intro that [of v db' i row order]) (simp_all add: row_def)
qed

lemma post_orders_invalid:
  assumes "\<not> truthy (get_prop b ''userId'') \<or> \<not> truthy (get_prop b ''restaurantName'')
     \<or> \<not> truthy (get_prop b ''items'') \<or> \<not> truthy (get_prop b ''totalPrice'')"
  shows "post_orders now eng db b = (db, Inr (failure_message 400 ''Semua field wajib diisi''))"
  using assms by (auto simp: post_orders_def Let_def)

lemma post_orders_created:
  assumes "post_orders now eng db b = (db', Inr r)" and "code r = 201"
  obtains v order where
    "get_prop b ''items'' = Some v"
    "status (last (orders db')) = SText ''pending''"
    "items (last (orders db')) = SText (JSON_stringify v)"
    "parseOrderRow (last (orders db')) = Inr order"
    "r = \<lparr>code = 201, payload = success_data (Some (JObj order))\<rparr>"
    "\<forall>y. select_orders_id y db' (SText (dec (oid (last (orders db'))))) = Some (last (orders db'))"
proof -
  have "\<not> (\<not> truthy (get_prop b ''userId'') \<or> \<not> truthy (get_prop b ''restaurantName'')
     \<or> \<not> truthy (get_prop b ''items'') \<or> \<not> truthy (get_prop b ''totalPrice''))"
  proof
    assume "\<not> truthy (get_prop b ''userId'') \<or> \<not> truthy (get_prop b ''restaurantName'')
     \<or> \<not> truthy (get_prop b ''items'') \<or> \<not> truthy (get_prop b ''totalPrice'')"
    from post_orders_invalid [OF this, of now eng db] assms(1)
    have "r = failure_message 400 ''Semua field wajib diisi''" by simp
    with assms(2) show False by (simp add: failure_message_def)
  qed
  then have t: "truthy (get_prop b ''userId'')" "truthy (get_prop b ''restaurantName'')"
    "truthy (get_prop b ''items'')" "truthy (get_prop b ''totalPrice'')"
    by auto
  from post_orders_valid [OF t, where now = now and db = db and eng = eng]
  obtain v db2 i row order where
    v: "get_prop b ''items'' = Some v"
    and ins: "insert_orders (number_of_text eng) now db (bind_param (get_prop b ''userId'')) (bind_param (get_prop b ''restaurantName''))
       (SText (JSON_stringify v)) (bind_param (get_prop b ''totalPrice'')) (SText ''pending'')
       = Inr (db2, i)"
    and row: "row = last (orders db2)" "oid row = i" "status row = SText ''pending''"
      "items row = SText (JSON_stringify v)" "parseOrderRow row = Inr order"
    and res: "post_orders now eng db b =
       (case fault eng 0 of
          Some e \<Rightarrow> (db, Inr (failure 500 ''Error creating order'' e))
        | None \<Rightarrow>
            (case fault eng 1 of
               Some e \<Rightarrow> (db2, Inr (failure 500 ''Error fetching created order'' e))
             | None \<Rightarrow> (db2, Inr \<lparr>code = 201, payload = success_data (Some (JObj order))\<rparr>)))"
    by blast
  from res assms have eq: "db' = db2" "r = \<lparr>code = 201, payload = success_data (Some (JObj order))\<rparr>"
    by (auto simp: failure_def split: option.splits)
  from select_inserted_order(2) [OF ins] row(1,2)
  have "\<forall>y. select_orders_id y db2 (SText (dec (oid row))) = Some row" by simp
  with v row eq show ?thesis
    by (intro that [of v order]) simp_all
qed

lemma get_orders_id_found:
  assumes "fault eng 0 = None" and "select_orders_id (number_of_text eng) db (SText i) = Some row" and "parseOrderRow row = Inr order"
  shows "get_orders_id eng db i = Inr (ok_json (success_data (Some (JObj order))))"
  using assms by (simp add: get_orders_id_def with_engine_def)

text \<open>
  Claim C5, as amended.  \<open>POST /orders\<close> answers 400 exactly when at least one of
  \<open>userId\<close>, \<open>restaurantName\<close>, \<open>items\<close>, \<open>totalPrice\<close> is missing from the body or has a
  falsy value (\<open>null\<close>, \<open>false\<close>, the number 0, the empty string).  A body whose four
  fields are truthy passes validation and is always answered: 201 when both statements run,
  500 when the engine fails one of them.
\<close>

theorem post_orders_validation:
  "((\<exists>r. snd (post_orders now eng db b) = Inr r \<and> code r = 400) \<longleftrightarrow>
       \<not> truthy (get_prop b ''userId'') \<or> \<not> truthy (get_prop b ''restaurantName'')
       \<or> \<not> truthy (get_prop b ''items'') \<or> \<not> truthy (get_prop b ''totalPrice''))
   \<and> (truthy (get_prop b ''userId'') \<and> truthy (get_prop b ''restaurantName'')
        \<and> truthy (get_prop b ''items'') \<and> truthy (get_prop b ''totalPrice'') \<longrightarrow>
       (\<exists>r. snd (post_orders now eng db b) = Inr r
            \<and> code r = (if fault eng 0 = None \<and> fault eng 1 = None then 201 else 500)))"
proof -
  let ?falsy = "\<not> truthy (get_prop b ''userId'') \<or> \<not> truthy (get_prop b ''restaurantName'')
       \<or> \<not> truthy (get_prop b ''items'') \<or> \<not> truthy (get_prop b ''totalPrice'')"
  have valid: "\<exists>r. snd (post_orders now eng db b) = Inr r
            \<and> code r = (if fault eng 0 = None \<and> fault eng 1 = None then 201 else 500)" if "\<not> ?falsy"
  proof -
    from that have t: "truthy (get_prop b ''userId'')" "truthy (get_prop b ''restaurantName'')"
      "truthy (get_prop b ''items'')" "truthy (get_prop b ''totalPrice'')" by auto
    from post_orders_valid [OF t, where now = now and db = db and eng = eng] obtain db2 order where
      "post_orders now eng db b =
       (case fault eng 0 of
          Some e \<Rightarrow> (db, Inr (failure 500 ''Error creating order'' e))
        | None \<Rightarrow>
            (case fault eng 1 of
               Some e \<Rightarrow> (db2, Inr (failure 500 ''Error fetching created order'' e))
             | None \<Rightarrow> (db2, Inr \<lparr>code = 201, payload = success_data (Some (JObj order))\<rparr>)))"
      by blast
    then show ?thesis
      by (auto simp: failure_def split: option.splits)
  qed
  have invalid: "snd (post_orders now eng db b) = Inr (failure_message 400 ''Semua field wajib diisi'')"
    if "?falsy"
    using post_orders_invalid [OF that, of now eng db] by simp
  have A: "(\<exists>r. snd (post_orders now eng db b) = Inr r \<and> code r = 400) \<longleftrightarrow> ?falsy"
  proof
    assume "\<exists>r. snd (post_orders now eng db b) = Inr r \<and> code r = 400"
    then show ?falsy
      using valid by (cases "fault eng 0 = None \<and> fault eng 1 = None") force+
  next
    assume ?falsy
    from invalid [OF this] show "\<exists>r. snd (post_orders now eng db b) = Inr r \<and> code r = 400"
      by (simp add: failure_message_def)
  qed
  have B: "truthy (get_prop b ''userId'') \<and> truthy (get_prop b ''restaurantName'')
        \<and> truthy (get_prop b ''items'') \<and> truthy (get_prop b ''totalPrice'') \<longrightarrow>
       (\<exists>r. snd (post_orders now eng db b) = Inr r
            \<and> code r = (if fault eng 0 = None \<and> fault eng 1 = None then 201 else 500))"
    using valid by blast
  show ?thesis
    by (rule conjI [OF A B])
qed

theorem post_orders_validation_witness:
  "(\<exists>r. snd (post_orders ''2024-01-02 00:00:00'' no_fault sample_orders sample_body) = Inr r
        \<and> code r = (if fault no_fault 0 = None \<and> fault no_fault 1 = None then 201 else 500))
   \<and> (\<exists>r. snd (post_orders ''2024-01-02 00:00:00'' no_fault sample_orders
              [(''userId'', JNum 1), (''restaurantName'', JStr ''Warung''), (''totalPrice'', JNum 5)]) = Inr r
        \<and> code r = 400)"
proof -
  note valid = post_orders_validation
    [of "''2024-01-02 00:00:00''" no_fault sample_orders sample_body, THEN conjunct2, THEN mp]
  note invalid = post_orders_validation
    [of "''2024-01-02 00:00:00''" no_fault sample_orders
        "[(''userId'', JNum 1), (''restaurantName'', JStr ''Warung''), (''totalPrice'', JNum 5)]",
     THEN conjunct1, THEN iffD2]
  have a: "\<exists>r. snd (post_orders ''2024-01-02 00:00:00'' no_fault sample_orders sample_body) = Inr r
        \<and> code r = (if fault no_fault 0 = None \<and> fault no_fault 1 = None then 201 else 500)"
    by (rule valid) code_simp
  have b: "\<exists>r. snd (post_orders ''2024-01-02 00:00:00'' no_fault sample_orders
              [(''userId'', JNum 1), (''restaurantName'', JStr ''Warung''), (''totalPrice'', JNum 5)]) = Inr r
        \<and> code r = 400"
    by (rule invalid) code_simp
  show ?thesis
    by (rule conjI [OF a b])
qed

text \<open>The claim as first stated has every body that supplies all four fields pass
  validation.  A body with all four fields and a price of 0 is answered 400 and nothing is
  stored.\<close>

theorem post_orders_zero_price_counterexample:
  "get_prop [(''userId'', JNum 1), (''restaurantName'', JStr ''Warung''),
             (''items'', JArr [JStr ''Air Putih'']), (''totalPrice'', JNum 0)] ''userId'' = Some (JNum 1)
   \<and> get_prop [(''userId'', JNum 1), (''restaurantName'', JStr ''Warung''),
             (''items'', JArr [JStr ''Air Putih'']), (''totalPrice'', JNum 0)] ''restaurantName''
       = Some (JStr ''Warung'')
   \<and> get_prop [(''userId'', JNum 1), (''restaurantName'', JStr ''Warung''),
             (''items'', JArr [JStr ''Air Putih'']), (''totalPrice'', JNum 0)] ''items''
       = Some (JArr [JStr ''Air Putih''])
   \<and> get_prop [(''userId'', JNum 1), (''restaurantName'', JStr ''Warung''),
             (''items'', JArr [JStr ''Air Putih'']), (''totalPrice'', JNum 0)] ''totalPrice'' = Some (JNum 0)
   \<and> post_orders ''2024-01-02 00:00:00'' no_fault sample_orders
        [(''userId'', JNum 1), (''restaurantName'', JStr ''Warung''),
         (''items'', JArr [JStr ''Air Putih'']), (''totalPrice'', JNum 0)]
       = (sample_orders, Inr (failure_message 400 ''Semua field wajib diisi''))"
  by code_simp

text \<open>
  Claim C6.  When \<open>POST /orders\<close> answers 201, the row it has stored has status
  \<open>pending\<close>, the order in the answer has status \<open>pending\<close>, and a later
  \<open>GET /orders/:id\<close> with the id of the answer returns that same order.  The body is
  arbitrary: a \<open>status\<close> in it is never read.
\<close>

theorem post_orders_status_pending:
  assumes "post_orders now eng db b = (db', Inr r)" and "code r = 201"
  shows "status (last (orders db')) = SText ''pending''
     \<and> (\<exists>order. payload r = success_data (Some (JObj order))
           \<and> get_prop order ''id'' = Some (JNum (oid (last (orders db'))))
           \<and> get_prop order ''status'' = Some (JStr ''pending'')
           \<and> (\<forall>eng'. fault eng' 0 = None \<longrightarrow>
                 get_orders_id eng' db' (dec (oid (last (orders db'))))
                   = Inr (ok_json (success_data (Some (JObj order))))))"
proof -
  from post_orders_created [OF assms] obtain v order where
    st: "status (last (orders db')) = SText ''pending''"
    and p: "parseOrderRow (last (orders db')) = Inr order"
    and r: "r = \<lparr>code = 201, payload = success_data (Some (JObj order))\<rparr>"
    and sel: "\<forall>y. select_orders_id y db' (SText (dec (oid (last (orders db'))))) = Some (last (orders db'))"
    by blast
  from p st have f: "get_prop order ''id'' = Some (JNum (oid (last (orders db'))))"
    "get_prop order ''status'' = Some (JStr ''pending'')"
    by (auto simp: parseOrderRow_Inr get_prop_def)
  have g: "\<forall>eng'. fault eng' 0 = None \<longrightarrow>
      get_orders_id eng' db' (dec (oid (last (orders db')))) = Inr (ok_json (success_data (Some (JObj order))))"
    using sel p by (simp add: get_orders_id_found)
  from st r f g show ?thesis by auto
qed

theorem post_orders_status_pending_witness:
  "status (last (orders (fst (post_orders ''2024-01-02 00:00:00'' no_fault sample_orders sample_body))))
       = SText ''pending''
   \<and> (\<exists>order. payload (projr (snd (post_orders ''2024-01-02 00:00:00'' no_fault sample_orders sample_body)))
             = success_data (Some (JObj order))
         \<and> get_prop order ''id'' = Some (JNum 3)
         \<and> get_prop order ''status'' = Some (JStr ''pending'')
         \<and> get_orders_id no_fault
               (fst (post_orders ''2024-01-02 00:00:00'' no_fault sample_orders sample_body)) ''3''
             = Inr (ok_json (success_data (Some (JObj order)))))"
proof -
  let ?db' = "fst (post_orders ''2024-01-02 00:00:00'' no_fault sample_orders sample_body)"
  let ?r = "projr (snd (post_orders ''2024-01-02 00:00:00'' no_fault sample_orders sample_body))"
  have created: "post_orders ''2024-01-02 00:00:00'' no_fault sample_orders sample_body = (?db', Inr ?r)"
    by code_simp
  have status201: "code ?r = 201"
    by code_simp
  have key: "oid (last (orders ?db')) = 3" and three: "dec 3 = ''3''" and eng: "fault no_fault 0 = None"
    by code_simp+
  from post_orders_status_pending [OF created status201]
  obtain order where st: "status (last (orders ?db')) = SText ''pending''"
    and o: "payload ?r = success_data (Some (JObj order))"
      "get_prop order ''id'' = Some (JNum (oid (last (orders ?db'))))"
      "get_prop order ''status'' = Some (JStr ''pending'')"
    and g: "\<forall>eng'. fault eng' 0 = None \<longrightarrow>
              get_orders_id eng' ?db' (dec (oid (last (orders ?db'))))
                = Inr (ok_json (success_data (Some (JObj order))))"
    by blast
  from g eng have "get_orders_id no_fault ?db' (dec (oid (last (orders ?db'))))
      = Inr (ok_json (success_data (Some (JObj order))))"
    by blast
  then have "get_orders_id no_fault ?db' ''3'' = Inr (ok_json (success_data (Some (JObj order))))"
    by (simp only: key three)
  moreover from o(2) have "get_prop order ''id'' = Some (JNum 3)"
    by (simp only: key)
  ultimately show ?thesis
    using st o(1,3) by blast
qed

text \<open>
  Claim C7.  When the body of \<open>POST /orders\<close> has for \<open>items\<close> a sequence \<open>S\<close> of
  strings and the answer is 201, the stored text is the encoding of \<open>S\<close>, decoding it gives
  \<open>S\<close> again, and both the answer and a later \<open>GET /orders/:id\<close> of that order carry
  \<open>items\<close> equal to \<open>S\<close>.
\<close>

theorem post_orders_items_round_trip:
  assumes "get_prop b ''items'' = Some (JArr (map JStr S))"
    and "post_orders now eng db b = (db', Inr r)" and "code r = 201"
  shows "items (last (orders db')) = SText (JSON_stringify (JArr (map JStr S)))
     \<and> JSON_parse (JSON_stringify (JArr (map JStr S))) = Some (JArr (map JStr S))
     \<and> (\<exists>order. payload r = success_data (Some (JObj order))
           \<and> get_prop order ''id'' = Some (JNum (oid (last (orders db'))))
           \<and> get_prop order ''items'' = Some (JArr (map JStr S))
           \<and> (\<forall>eng'. fault eng' 0 = None \<longrightarrow>
                 get_orders_id eng' db' (dec (oid (last (orders db'))))
                   = Inr (ok_json (success_data (Some (JObj order))))))"
proof -
  from post_orders_created [OF assms(2,3)] obtain v order where
    v: "get_prop b ''items'' = Some v"
    and it': "items (last (orders db')) = SText (JSON_stringify v)"
    and p: "parseOrderRow (last (orders db')) = Inr order"
    and r: "r = \<lparr>code = 201, payload = success_data (Some (JObj order))\<rparr>"
    and sel: "\<forall>y. select_orders_id y db' (SText (dec (oid (last (orders db'))))) = Some (last (orders db'))"
    by blast
  from v assms(1) have "v = JArr (map JStr S)" by simp
  with it' have it: "items (last (orders db')) = SText (JSON_stringify (JArr (map JStr S)))"
    by (simp only:)
  have rt: "JSON_parse (JSON_stringify (JArr (map JStr S))) = Some (JArr (map JStr S))"
    using JSON_parse_stringify [of "JArr (map JStr S)"] by (simp only: decoded_strings)
  from p have "\<exists>its. JSON_parse (js_to_string (js_of_sql (items (last (orders db'))))) = Some its
      \<and> get_prop order ''id'' = Some (JNum (oid (last (orders db'))))
      \<and> get_prop order ''items'' = Some its"
    by (auto simp: parseOrderRow_Inr get_prop_def)
  then have f: "get_prop order ''id'' = Some (JNum (oid (last (orders db'))))"
    "get_prop order ''items'' = Some (JArr (map JStr S))"
    unfolding it using rt by (auto simp del: JSON_stringify.simps)
  have g: "\<forall>eng'. fault eng' 0 = None \<longrightarrow>
      get_orders_id eng' db' (dec (oid (last (orders db')))) = Inr (ok_json (success_data (Some (JObj order))))"
    using sel p by (simp add: get_orders_id_found)
  from r have "payload r = success_data (Some (JObj order))" by simp
  with f g have "\<exists>order. payload r = success_data (Some (JObj order))
           \<and> get_prop order ''id'' = Some (JNum (oid (last (orders db'))))
           \<and> get_prop order ''items'' = Some (JArr (map JStr S))
           \<and> (\<forall>eng'. fault eng' 0 = None \<longrightarrow>
                 get_orders_id eng' db' (dec (oid (last (orders db'))))
                   = Inr (ok_json (success_data (Some (JObj order)))))"
    by blast
  with it rt show ?thesis by blast
qed

theorem post_orders_items_round_trip_witness:
  "items (last (orders (fst (post_orders ''2024-01-02 00:00:00'' no_fault sample_orders sample_body))))
       = SText (JSON_stringify (JArr (map JStr [''Sate Padang'', ''Lontong'', ''Es Teh''])))
   \<and> JSON_parse (JSON_stringify (JArr (map JStr [''Sate Padang'', ''Lontong'', ''Es Teh''])))
       = Some (JArr (map JStr [''Sate Padang'', ''Lontong'', ''Es Teh'']))
   \<and> (\<exists>order. payload (projr (snd (post_orders ''2024-01-02 00:00:00'' no_fault sample_orders sample_body)))
             = success_data (Some (JObj order))
         \<and> get_prop order ''id'' = Some (JNum 3)
         \<and> get_prop order ''items'' = Some (JArr (map JStr [''Sate Padang'', ''Lontong'', ''Es Teh'']))
         \<and> get_orders_id no_fault
               (fst (post_orders ''2024-01-02 00:00:00'' no_fault sample_orders sample_body)) ''3''
             = Inr (ok_json (success_data (Some (JObj order)))))"
proof -
  let ?db' = "fst (post_orders ''2024-01-02 00:00:00'' no_fault sample_orders sample_body)"
  let ?r = "projr (snd (post_orders ''2024-01-02 00:00:00'' no_fault sample_orders sample_body))"
  let ?S = "[''Sate Padang'', ''Lontong'', ''Es Teh'']"
  have sent: "get_prop sample_body ''items'' = Some (JArr (map JStr ?S))"
    by code_simp
  have created: "post_orders ''2024-01-02 00:00:00'' no_fault sample_orders sample_body = (?db', Inr ?r)"
    by code_simp
  have status201: "code ?r = 201"
    by code_simp
  have key: "oid (last (orders ?db')) = 3" and three: "dec 3 = ''3''" and eng: "fault no_fault 0 = None"
    by code_simp+
  from post_orders_items_round_trip [OF sent created status201]
  obtain order where it: "items (last (orders ?db')) = SText (JSON_stringify (JArr (map JStr ?S)))"
    and rt: "JSON_parse (JSON_stringify (JArr (map JStr ?S))) = Some (JArr (map JStr ?S))"
    and o: "payload ?r = success_data (Some (JObj order))"
      "get_prop order ''id'' = Some (JNum (oid (last (orders ?db'))))"
      "get_prop order ''items'' = Some (JArr (map JStr ?S))"
    and g: "\<forall>eng'. fault eng' 0 = None \<longrightarrow>
              get_orders_id eng' ?db' (dec (oid (last (orders ?db'))))
                = Inr (ok_json (success_data (Some (JObj order))))"
    by blast
  from g eng have "get_orders_id no_fault ?db' (dec (oid (last (orders ?db'))))
      = Inr (ok_json (success_data (Some (JObj order))))"
    by blast
  then have "get_orders_id no_fault ?db' ''3'' = Inr (ok_json (success_data (Some (JObj order))))"
    by (simp only: key three)
  moreover from o(2) have "get_prop order ''id'' = Some (JNum 3)"
    by (simp only: key)
  ultimately have "\<exists>order. payload ?r = success_data (Some (JObj order))
         \<and> get_prop order ''id'' = Some (JNum 3)
         \<and> get_prop order ''items'' = Some (JArr (map JStr ?S))
         \<and> get_orders_id no_fault ?db' ''3'' = Inr (ok_json (success_data (Some (JObj order))))"
    using o(1,3) by blast
  with it rt show ?thesis
    by (intro conjI)
qed

section \<open>The composite read\<close>

lemma text_integer_Nil: "text_integer x [] = None"
  by (simp add: text_integer_def signed_digits_def)

lemma select_users_id_text_nonempty:
  assumes "select_users_id (number_of_text ueng) udb (SText t) = Some urow"
  shows "t \<noteq> []"
proof
  assume "t = []"
  with assms have "find (\<lambda>r. integer_column_equals (number_of_text ueng) (SInt (uid r)) (SText []))
      (users udb) = Some urow"
    by (simp add: select_users_id_def)
  then have "integer_column_equals (number_of_text ueng) (SInt (uid urow)) (SText [])"
    by (auto simp: find_Some_iff)
  then show False
    by (simp add: integer_column_equals_def text_integer_Nil)
qed

lemma user_service_get_user:
  assumes "t \<noteq> []"
  shows "user_service_at now ueng udb (upstream_get [''users'', t] []) = Inr (get_users_id ueng udb t)"
  using assms by (simp add: user_service_at_def user_service_def upstream_get_def route_path_def)

lemma get_users_id_found:
  assumes "fault ueng 0 = None" and "select_users_id (number_of_text ueng) udb (SText t) = Some urow"
  shows "get_users_id ueng udb t = ok_json (success_data (Some (user_json urow)))"
  using assms by (simp add: get_users_id_def with_engine_def)

text \<open>
  Claim C1.  When the store read succeeds and finds the order, and the User Service has the
  user that the order's \<open>userId\<close> names, \<open>GET /orders/:id/with-user\<close> answers 200 with the
  fields of the order followed by \<open>userDetails\<close>, whose value is the \<open>data\<close> object that
  \<open>GET /users/{userId}\<close> answers with.
\<close>

theorem with_user_details_of_existing_user:
  assumes "fault eng 0 = None" and "select_orders_id (number_of_text eng) db (SText i) = Some row"
    and "parseOrderRow row = Inr order"
    and "fault ueng 0 = None"
    and "select_users_id (number_of_text ueng) udb (SText (js_to_string (js_of_sql (user_id row)))) = Some urow"
  shows "get_users_id ueng udb (js_to_string (js_of_sql (user_id row)))
           = ok_json (success_data (Some (user_json urow)))
     \<and> get_orders_id_with_user (user_service_at now ueng udb) eng db i
           = ([DbGet i, HttpGet (upstream_get [''users'', js_to_string (js_of_sql (user_id row))] [])],
              Inr (ok_json (success_data (Some (JObj (order @ [(''userDetails'', user_json urow)]))))))"
proof -
  let ?t = "js_to_string (js_of_sql (user_id row))"
  have u: "get_users_id ueng udb ?t = ok_json (success_data (Some (user_json urow)))"
    using assms(4,5) by (rule get_users_id_found)
  have ne: "?t \<noteq> []"
    using assms(5) by (rule select_users_id_text_nonempty)
  from assms(3) have rq: "user_request order = upstream_get [''users'', ?t] []"
    by (auto simp: parseOrderRow_Inr user_request_def get_prop_def)
  from assms(3) have app: "set_prop order ''userDetails'' d = order @ [(''userDetails'', d)]" for d
    by (auto simp: parseOrderRow_Inr)
  have ax: "axios (user_service_at now ueng udb) (upstream_get [''users'', ?t] [])
      = Inr (ok_json (success_data (Some (user_json urow))))"
    by (simp add: axios_def user_service_get_user [OF ne] u ok_json_def)
  have d: "data_of (payload (ok_json (success_data (Some (user_json urow))))) = Inr (Some (user_json urow))"
    by (simp add: ok_json_def success_data_def get_prop_def)
  have "get_orders_id_with_user (user_service_at now ueng udb) eng db i
           = ([DbGet i, HttpGet (upstream_get [''users'', ?t] [])],
              Inr (ok_json (success_data (Some (JObj (order @ [(''userDetails'', user_json urow)]))))))"
    using assms(1,2,3)
    by (simp add: get_orders_id_with_user_def with_engine_def rq ax d with_user_details_def app)
  with u show ?thesis by simp
qed

theorem with_user_details_of_existing_user_witness:
  "get_users_id no_fault sample_users (js_to_string (js_of_sql (user_id (hd (orders sample_orders)))))
           = ok_json (success_data (Some (user_json (hd (users sample_users)))))
     \<and> get_orders_id_with_user (user_service_at ''2024-01-02 00:00:00'' no_fault sample_users)
           no_fault sample_orders ''1''
           = ([DbGet ''1'',
               HttpGet (upstream_get
                 [''users'', js_to_string (js_of_sql (user_id (hd (orders sample_orders))))] [])],
              Inr (ok_json (success_data (Some (JObj
                (projr (parseOrderRow (hd (orders sample_orders)))
                 @ [(''userDetails'', user_json (hd (users sample_users)))]))))))"
  by (rule with_user_details_of_existing_user) code_simp+

section \<open>The external form of an order\<close>







end
